theory Spec2Isabelle
  imports Complex_Main "HOL-Library.Word"
begin

unbundle bit_operations_syntax

section \<open>Data model\<close>

text \<open>
  The collision core of \<^verbatim>\<open>SBDL.h\<close>.  C++ \<^verbatim>\<open>int\<close> and \<^verbatim>\<open>long\<close> are modelled by
  \<^typ>\<open>int\<close>: signed overflow is undefined behaviour in C++, so the model describes the
  executions in which every intermediate value fits its type.  \<^verbatim>\<open>double\<close> is
  idealised as \<^typ>\<open>real\<close>.  At angle 0 the idealisation is exact, since
  \<^verbatim>\<open>sin(0.0) = 0.0\<close>, \<^verbatim>\<open>cos(0.0) = 1.0\<close> and every product and sum is then an
  integer far below \<open>2^53\<close>; the runs at 45 and 135 degrees further down are
  chosen so that rounding errors of IEEE double cannot change a bounding box, an
  index or a result they compute.
  The general theorems about the scan use nothing about the values of sine, cosine,
  \<^verbatim>\<open>ceil\<close> and \<^verbatim>\<open>round\<close>, and the general lemma about the rotator is proved
  for every choice of the operations on doubles.

  Heap arrays are lists that carry their real length.  What is undefined behaviour or
  a crash in C++ is a value \<open>Inl f\<close> of the model: a read or write outside an array
  (\<open>OutOfBounds\<close>), an integer division by zero (\<open>DivideByZero\<close>) and an array
  allocation of negative length (\<open>BadArrayLength\<close>).  The source itself has no check
  for any of them.

  The fields \<^verbatim>\<open>x, y, w, h\<close> of \<^verbatim>\<open>SDL_Rect\<close> and \<^verbatim>\<open>width, height, alphaMap\<close> of
  \<^verbatim>\<open>Texture\<close> carry a prefix, because a record field is a global constant.
\<close>

record SDL_Rect =
  rect_x :: int
  rect_y :: int
  rect_w :: int
  rect_h :: int

record Texture =
  tex_width :: int
  tex_height :: int
  tex_alphaMap :: "int list"

datatype fault = OutOfBounds | DivideByZero | BadArrayLength

subsection \<open>C++ arithmetic\<close>

text \<open>Integer division truncates towards zero.\<close>

definition c_div :: "int \<Rightarrow> int \<Rightarrow> int" where
  "c_div a b = sgn a * sgn b * (\<bar>a\<bar> div \<bar>b\<bar>)"

text \<open>\<^verbatim>\<open>ceil\<close>, converted to \<^verbatim>\<open>int\<close>.\<close>

definition c_ceil :: "real \<Rightarrow> int" where
  "c_ceil r = \<lceil>r\<rceil>"

text \<open>\<^verbatim>\<open>round\<close> rounds half-way cases away from zero.\<close>

definition c_round :: "real \<Rightarrow> int" where
  "c_round r = (if 0 \<le> r then \<lfloor>r + 1 / 2\<rfloor> else \<lceil>r - 1 / 2\<rceil>)"

subsection \<open>Arrays\<close>

text \<open>\<^verbatim>\<open>new int[n]()\<close>: a zero-initialised array.\<close>

definition new_int :: "int \<Rightarrow> fault + int list" where
  "new_int n = (if n < 0 then Inl BadArrayLength else Inr (replicate (nat n) 0))"

text \<open>\<^verbatim>\<open>a[i]\<close> as a value.\<close>

definition rd :: "int list \<Rightarrow> int \<Rightarrow> fault + int" where
  "rd a i = (if 0 \<le> i \<and> i < int (length a) then Inr (a ! nat i) else Inl OutOfBounds)"

text \<open>\<^verbatim>\<open>a[i] = v\<close>.\<close>

definition wr :: "int list \<Rightarrow> int \<Rightarrow> int \<Rightarrow> fault + int list" where
  "wr a i v = (if 0 \<le> i \<and> i < int (length a) then Inr (a[nat i := v]) else Inl OutOfBounds)"

section \<open>getIntersectionRect\<close>

definition getIntersectionRect :: "SDL_Rect \<Rightarrow> SDL_Rect \<Rightarrow> SDL_Rect" where
  "getIntersectionRect rect1 rect2 =
     (let x1 = max (rect_x rect1) (rect_x rect2);
          y1 = max (rect_y rect1) (rect_y rect2);
          x2 = min (rect_x rect1 + rect_w rect1) (rect_x rect2 + rect_w rect2);
          y2 = min (rect_y rect1 + rect_h rect1) (rect_y rect2 + rect_h rect2);
          width = x2 - x1;
          height = y2 - y1
      in if width > 0 \<and> height > 0
         then \<lparr>rect_x = x1, rect_y = y1, rect_w = width, rect_h = height\<rparr>
         else \<lparr>rect_x = 0, rect_y = 0, rect_w = 0, rect_h = 0\<rparr>)"

section \<open>getRotatedBoundingBox\<close>

definition getRotatedBoundingBox :: "SDL_Rect \<Rightarrow> real \<Rightarrow> SDL_Rect" where
  "getRotatedBoundingBox rect0 angle =
     (let c_x = rect_x rect0 + c_div (rect_w rect0) 2;
          c_y = rect_y rect0 + c_div (rect_h rect0) 2;
          rect = rect0\<lparr>rect_x := rect_x rect0 - c_x, rect_y := rect_y rect0 - c_y\<rparr>;
          angle_sin = sin (angle * pi / 180);
          angle_cos = cos (angle * pi / 180);
          x1 = rect_x rect; x4 = rect_x rect;
          x2 = rect_x rect + rect_w rect; x3 = rect_x rect + rect_w rect;
          y1 = rect_y rect; y2 = rect_y rect;
          y3 = rect_y rect + rect_h rect; y4 = rect_y rect + rect_h rect;
          x1_2 = c_ceil (real_of_int y1 * angle_sin + real_of_int x1 * angle_cos);
          y1_2 = c_ceil (real_of_int y1 * angle_cos - real_of_int x1 * angle_sin);
          x2_2 = c_ceil (real_of_int y2 * angle_sin + real_of_int x2 * angle_cos);
          y2_2 = c_ceil (real_of_int y2 * angle_cos - real_of_int x2 * angle_sin);
          x3_2 = c_ceil (real_of_int y3 * angle_sin + real_of_int x3 * angle_cos);
          y3_2 = c_ceil (real_of_int y3 * angle_cos - real_of_int x3 * angle_sin);
          x4_2 = c_ceil (real_of_int y4 * angle_sin + real_of_int x4 * angle_cos);
          y4_2 = c_ceil (real_of_int y4 * angle_cos - real_of_int x4 * angle_sin);
          x1 = min x1_2 (min x2_2 (min x3_2 x4_2));
          x2 = max x1_2 (max x2_2 (max x3_2 x4_2));
          y1 = min y1_2 (min y2_2 (min y3_2 y4_2));
          y2 = y1;
          y3 = max y1_2 (max y2_2 (max y3_2 y4_2))
      in \<lparr>rect_x = x1 + c_x, rect_y = y1 + c_y,
          rect_w = x2 - x1 + 1, rect_h = y3 - y2 + 1\<rparr>)"

section \<open>Loops\<close>

text \<open>
  \<^verbatim>\<open>for (; i < n; ++i) body\<close> over a state that the body updates; a fault in
  the body ends the run.
\<close>

function for_loop :: "int \<Rightarrow> int \<Rightarrow> (int \<Rightarrow> 's \<Rightarrow> fault + 's) \<Rightarrow> 's \<Rightarrow> fault + 's" where
  "for_loop i n body s =
     (if i < n
      then (case body i s of Inl e \<Rightarrow> Inl e | Inr s' \<Rightarrow> for_loop (i + 1) n body s')
      else Inr s)"
  by pat_completeness auto
termination
  by (relation "measure (\<lambda>(i, n, body, s). nat (n - i))") auto

declare for_loop.simps [simp del]

text \<open>
  \<^verbatim>\<open>for (; i < n; ++i) if (test) return true;\<close> followed by
  \<^verbatim>\<open>return false\<close>: the loop stops at the first hit, and at the first fault.
\<close>

function for_any :: "int \<Rightarrow> int \<Rightarrow> (int \<Rightarrow> fault + bool) \<Rightarrow> fault + bool" where
  "for_any i n test =
     (if i < n
      then (case test i of
              Inl e \<Rightarrow> Inl e
            | Inr hit \<Rightarrow> if hit then Inr True else for_any (i + 1) n test)
      else Inr False)"
  by pat_completeness auto
termination
  by (relation "measure (\<lambda>(i, n, test). nat (n - i))") auto

declare for_any.simps [simp del]

section \<open>resizeBilinear\<close>

text \<open>
  The body of the inner loop up to the blended value \<^verbatim>\<open>alpha\<close>.  \<^verbatim>\<open>x >> 16\<close> is
  \<^term>\<open>drop_bit 16 x\<close>, \<^verbatim>\<open>xr << 16\<close> is \<^term>\<open>push_bit 16 xr\<close>.  With a
  \<^verbatim>\<open>long\<close> of 64 bits (Linux, macOS) the blend, at most \<open>255 * 2^32\<close>, does not
  overflow.
\<close>

definition resize_sample :: "int list \<Rightarrow> int \<Rightarrow> int \<Rightarrow> int \<Rightarrow> int \<Rightarrow> int \<Rightarrow> fault + int" where
  "resize_sample pixels w y_index y_diff one_min_y_diff x =
     (let xr = drop_bit 16 x;
          x_diff = x - push_bit 16 xr;
          one_min_x_diff = 65536 - x_diff;
          index = y_index + xr
      in case rd pixels index of Inl e \<Rightarrow> Inl e | Inr p0 \<Rightarrow>
        (case rd pixels (index + 1) of Inl e \<Rightarrow> Inl e | Inr p1 \<Rightarrow>
        (case rd pixels (index + w) of Inl e \<Rightarrow> Inl e | Inr p2 \<Rightarrow>
        (case rd pixels (index + w + 1) of Inl e \<Rightarrow> Inl e | Inr p3 \<Rightarrow>
           (let A = p0 AND 255; B = p1 AND 255; C = p2 AND 255; D = p3 AND 255
            in Inr (drop_bit 32
                 (A * one_min_x_diff * one_min_y_diff +
                  B * x_diff * one_min_y_diff +
                  C * y_diff * one_min_x_diff +
                  D * x_diff * y_diff)))))))"

text \<open>
  \<^verbatim>\<open>temp[offset++] = alpha\<close>.  The array \<^verbatim>\<open>temp\<close> is allocated uninitialised with
  \<open>capacity = w2 * h2\<close> cells and filled from the front, so the model keeps the cells
  written so far as the list \<open>temp\<close>, and \<^verbatim>\<open>offset\<close> is its length.
\<close>

definition store_next :: "int \<Rightarrow> int list \<Rightarrow> int \<Rightarrow> fault + int list" where
  "store_next capacity temp alpha =
     (if int (length temp) < capacity then Inr (temp @ [alpha]) else Inl OutOfBounds)"

text \<open>The inner loop; its state is \<open>(x, temp)\<close>.\<close>

definition resize_row ::
  "int list \<Rightarrow> int \<Rightarrow> int \<Rightarrow> int \<Rightarrow> int \<Rightarrow> int \<Rightarrow> int \<Rightarrow> int \<Rightarrow> int list \<Rightarrow> fault + int list" where
  "resize_row pixels w w2 capacity x_ratio y_index y_diff one_min_y_diff temp0 =
     (case for_loop 0 w2
        (\<lambda>j (x, temp).
           case resize_sample pixels w y_index y_diff one_min_y_diff x of
             Inl e \<Rightarrow> Inl e
           | Inr alpha \<Rightarrow>
              (case store_next capacity temp alpha of
                 Inl e \<Rightarrow> Inl e
               | Inr temp' \<Rightarrow> Inr (x + x_ratio, temp')))
        (0, temp0) of
        Inl e \<Rightarrow> Inl e
      | Inr (x, temp) \<Rightarrow> Inr temp)"

text \<open>
  The function.  A negative array length and the division by a zero \<^verbatim>\<open>w2\<close> or
  \<^verbatim>\<open>h2\<close> are faults; the state of the outer loop is \<open>(y, temp)\<close>.
\<close>

definition resizeBilinear :: "int list \<Rightarrow> int \<Rightarrow> int \<Rightarrow> int \<Rightarrow> int \<Rightarrow> fault + int list" where
  "resizeBilinear pixels w h w2 h2 =
     (if w2 * h2 < 0 then Inl BadArrayLength
      else if w2 = 0 \<or> h2 = 0 then Inl DivideByZero
      else
        (let x_ratio = c_div (push_bit 16 (w - 1)) w2;
             y_ratio = c_div (push_bit 16 (h - 1)) h2
         in case for_loop 0 h2
              (\<lambda>i (y, temp).
                 (let yr = drop_bit 16 y;
                      y_diff = y - push_bit 16 yr;
                      one_min_y_diff = 65536 - y_diff;
                      y_index = yr * w
                  in case resize_row pixels w w2 (w2 * h2) x_ratio y_index y_diff
                            one_min_y_diff temp of
                       Inl e \<Rightarrow> Inl e
                     | Inr temp' \<Rightarrow> Inr (y + y_ratio, temp')))
              (0, []) of
              Inl e \<Rightarrow> Inl e
            | Inr (y, temp) \<Rightarrow> Inr temp))"

section \<open>getRotatedAlphaMap\<close>

text \<open>The index of the scatter write for the source cell in row \<open>i\<close>, column \<open>j\<close>.\<close>

definition scatter_index ::
  "int \<Rightarrow> int \<Rightarrow> SDL_Rect \<Rightarrow> int \<Rightarrow> int \<Rightarrow> real \<Rightarrow> real \<Rightarrow> int \<Rightarrow> int \<Rightarrow> int" where
  "scatter_index width height boundingBox c_x c_y angle_sin angle_cos i j =
     (let x = c_round (real_of_int (i - c_y) * angle_sin + real_of_int (j - c_x) * angle_cos);
          y = c_round (real_of_int (i - c_y) * angle_cos - real_of_int (j - c_x) * angle_sin)
      in (y + c_y + c_div (rect_h boundingBox - height) 2) * rect_w boundingBox
           + x + c_x + c_div (rect_w boundingBox - width) 2)"

text \<open>
  The two nested loops over the source cells, for any index function \<open>idx\<close> of the
  scatter write.  A cell of opacity 0 is skipped.
\<close>

definition scatter :: "int list \<Rightarrow> int \<Rightarrow> int \<Rightarrow> (int \<Rightarrow> int \<Rightarrow> int) \<Rightarrow> int list \<Rightarrow> fault + int list" where
  "scatter alphaMap width height idx result0 =
     for_loop 0 height
       (\<lambda>i result1.
          for_loop 0 width
            (\<lambda>j result.
               case rd alphaMap (i * width + j) of
                 Inl e \<Rightarrow> Inl e
               | Inr a \<Rightarrow> if a \<noteq> 0 then wr result (idx i j) a else Inr result)
            result1)
       result0"

definition getRotatedAlphaMap :: "int list \<Rightarrow> int \<Rightarrow> int \<Rightarrow> real \<Rightarrow> fault + int list" where
  "getRotatedAlphaMap alphaMap width height angle0 =
     (let angle = angle0 * (- 1);
          angle_sin = sin (angle * pi / 180);
          angle_cos = cos (angle * pi / 180);
          boundingBox = getRotatedBoundingBox
             \<lparr>rect_x = 0, rect_y = 0, rect_w = width, rect_h = height\<rparr> angle;
          c_x = c_div width 2;
          c_y = c_div height 2
      in case new_int (rect_w boundingBox * rect_h boundingBox) of
           Inl e \<Rightarrow> Inl e
         | Inr result \<Rightarrow>
             scatter alphaMap width height
               (scatter_index width height boundingBox c_x c_y angle_sin angle_cos) result)"

section \<open>hasCollision\<close>

text \<open>
  The function returns its result together with the calls it made to the resampler
  and to the rotator, in order: the instrumentation the specification asks for.
  The arrays \<^verbatim>\<open>map1\<close> and \<^verbatim>\<open>map2\<close> are \<open>map_1\<close> and \<open>map_2\<close> here.
\<close>

datatype call = ResizeBilinear | GetRotatedAlphaMap

definition scan :: "int list \<Rightarrow> int list \<Rightarrow> SDL_Rect \<Rightarrow> SDL_Rect \<Rightarrow> SDL_Rect \<Rightarrow> fault + bool" where
  "scan map_1 map_2 box1 box2 intersection =
     for_any (rect_y intersection) (rect_y intersection + rect_h intersection)
       (\<lambda>i. for_any (rect_x intersection) (rect_x intersection + rect_w intersection)
          (\<lambda>j. case rd map_1 ((i - rect_y box1) * rect_w box1 + j - rect_x box1) of
                 Inl e \<Rightarrow> Inl e
               | Inr a \<Rightarrow>
                   if a \<noteq> 0
                   then (case rd map_2 ((i - rect_y box2) * rect_w box2 + j - rect_x box2) of
                           Inl e \<Rightarrow> Inl e
                         | Inr b \<Rightarrow> Inr (b \<noteq> 0))
                   else Inr False))"

definition hasCollision ::
  "Texture \<Rightarrow> SDL_Rect \<Rightarrow> real \<Rightarrow> Texture \<Rightarrow> SDL_Rect \<Rightarrow> real \<Rightarrow> (fault + bool) \<times> call list" where
  "hasCollision texture1 rect1 angle1 texture2 rect2 angle2 =
     (let box1 = getRotatedBoundingBox rect1 angle1;
          box2 = getRotatedBoundingBox rect2 angle2;
          intersection = getIntersectionRect box1 box2
      in if rect_w intersection = 0 then (Inr False, [])
         else
           case resizeBilinear (tex_alphaMap texture1) (tex_width texture1)
                  (tex_height texture1) (rect_w rect1) (rect_h rect1) of
             Inl e \<Rightarrow> (Inl e, [ResizeBilinear])
           | Inr resized_map1 \<Rightarrow>
           (case resizeBilinear (tex_alphaMap texture2) (tex_width texture2)
                  (tex_height texture2) (rect_w rect2) (rect_h rect2) of
             Inl e \<Rightarrow> (Inl e, [ResizeBilinear, ResizeBilinear])
           | Inr resized_map2 \<Rightarrow>
           (case getRotatedAlphaMap resized_map1 (rect_w rect1) (rect_h rect1) angle1 of
             Inl e \<Rightarrow> (Inl e, [ResizeBilinear, ResizeBilinear, GetRotatedAlphaMap])
           | Inr map_1 \<Rightarrow>
           (case getRotatedAlphaMap resized_map2 (rect_w rect2) (rect_h rect2) angle2 of
             Inl e \<Rightarrow>
               (Inl e, [ResizeBilinear, ResizeBilinear, GetRotatedAlphaMap, GetRotatedAlphaMap])
           | Inr map_2 \<Rightarrow>
               (scan map_1 map_2 box1 box2 intersection,
                [ResizeBilinear, ResizeBilinear, GetRotatedAlphaMap, GetRotatedAlphaMap])))))"

section \<open>getAlpha\<close>

text \<open>
  The surface as \<^verbatim>\<open>getAlpha\<close> reads it: \<^verbatim>\<open>format->BytesPerPixel\<close>, \<^verbatim>\<open>pitch\<close> and
  the bytes at \<^verbatim>\<open>pixels\<close>.
\<close>

record SDL_Surface =
  surf_BytesPerPixel :: int
  surf_pitch :: int
  surf_pixels :: "8 word list"

text \<open>\<^verbatim>\<open>p[k]\<close>, promoted.\<close>

definition rd_byte :: "8 word list \<Rightarrow> int \<Rightarrow> fault + 32 word" where
  "rd_byte a i =
     (if 0 \<le> i \<and> i < int (length a) then Inr (ucast (a ! nat i)) else Inl OutOfBounds)"

text \<open>\<^verbatim>\<open>*(Uint16*)p\<close> and \<^verbatim>\<open>*(Uint32*)p\<close>: the bytes in the byte order of the machine.\<close>

definition load16 :: "bool \<Rightarrow> 8 word list \<Rightarrow> int \<Rightarrow> fault + 32 word" where
  "load16 big_endian a p =
     (case rd_byte a p of Inl e \<Rightarrow> Inl e | Inr p0 \<Rightarrow>
     (case rd_byte a (p + 1) of Inl e \<Rightarrow> Inl e | Inr p1 \<Rightarrow>
        Inr (if big_endian then push_bit 8 p0 OR p1 else p0 OR push_bit 8 p1)))"

definition load32 :: "bool \<Rightarrow> 8 word list \<Rightarrow> int \<Rightarrow> fault + 32 word" where
  "load32 big_endian a p =
     (case rd_byte a p of Inl e \<Rightarrow> Inl e | Inr p0 \<Rightarrow>
     (case rd_byte a (p + 1) of Inl e \<Rightarrow> Inl e | Inr p1 \<Rightarrow>
     (case rd_byte a (p + 2) of Inl e \<Rightarrow> Inl e | Inr p2 \<Rightarrow>
     (case rd_byte a (p + 3) of Inl e \<Rightarrow> Inl e | Inr p3 \<Rightarrow>
        Inr (if big_endian
             then push_bit 24 p0 OR push_bit 16 p1 OR push_bit 8 p2 OR p3
             else p0 OR push_bit 8 p1 OR push_bit 16 p2 OR push_bit 24 p3)))))"

text \<open>
  The function.  \<open>big_endian\<close> is \<^verbatim>\<open>SDL_BYTEORDER == SDL_BIG_ENDIAN\<close>.
  \<^verbatim>\<open>SDL_GetRGBA\<close> belongs to the SDL library; \<open>SDL_GetRGBA_alpha\<close> is the alpha it
  returns for a pixel value in the format of the surface.  The \<^verbatim>\<open>switch\<close> has no
  \<^verbatim>\<open>default\<close>: for any other \<^verbatim>\<open>bpp\<close> the variable \<^verbatim>\<open>pixelColor\<close> keeps the
  indeterminate value it was declared with, the parameter \<open>indeterminate\<close> here.
  The source has no assertion, \<^verbatim>\<open>abort\<close>, \<^verbatim>\<open>exit\<close> or \<^verbatim>\<open>throw\<close> on this path.
\<close>

definition getAlpha ::
  "bool \<Rightarrow> (32 word \<Rightarrow> 8 word) \<Rightarrow> 32 word \<Rightarrow> SDL_Surface \<Rightarrow> int \<Rightarrow> int \<Rightarrow> fault + int" where
  "getAlpha big_endian SDL_GetRGBA_alpha indeterminate surface x y =
     (let bpp = surf_BytesPerPixel surface;
          p = y * surf_pitch surface + x * bpp;
          pixelColor =
            (if bpp = 1 then rd_byte (surf_pixels surface) p
             else if bpp = 2 then load16 big_endian (surf_pixels surface) p
             else if bpp = 3 then
               (case rd_byte (surf_pixels surface) p of Inl e \<Rightarrow> Inl e | Inr p0 \<Rightarrow>
               (case rd_byte (surf_pixels surface) (p + 1) of Inl e \<Rightarrow> Inl e | Inr p1 \<Rightarrow>
               (case rd_byte (surf_pixels surface) (p + 2) of Inl e \<Rightarrow> Inl e | Inr p2 \<Rightarrow>
                  Inr (if big_endian
                       then push_bit 16 p0 OR push_bit 8 p1 OR p2
                       else p0 OR push_bit 8 p1 OR push_bit 16 p2))))
             else if bpp = 4 then load32 big_endian (surf_pixels surface) p
             else Inr indeterminate)
      in case pixelColor of
           Inl e \<Rightarrow> Inl e
         | Inr c \<Rightarrow> Inr (uint (SDL_GetRGBA_alpha c)))"

section \<open>Vocabulary of the claims\<close>

text \<open>A fold over a list with a step that may fault; the loops are such folds.\<close>

fun fold_fault :: "('a \<Rightarrow> 's \<Rightarrow> fault + 's) \<Rightarrow> 'a list \<Rightarrow> 's \<Rightarrow> fault + 's" where
  "fold_fault f [] s = Inr s"
| "fold_fault f (x # xs) s = (case f x s of Inl e \<Rightarrow> Inl e | Inr s' \<Rightarrow> fold_fault f xs s')"

text \<open>
  The bounding box that \<^const>\<open>getRotatedAlphaMap\<close> sizes its result with, and the index
  of its scatter write, as functions of its arguments.
\<close>

definition rotator_box :: "int \<Rightarrow> int \<Rightarrow> real \<Rightarrow> SDL_Rect" where
  "rotator_box width height angle0 =
     getRotatedBoundingBox \<lparr>rect_x = 0, rect_y = 0, rect_w = width, rect_h = height\<rparr>
       (angle0 * (- 1))"

definition rotator_index :: "int \<Rightarrow> int \<Rightarrow> real \<Rightarrow> int \<Rightarrow> int \<Rightarrow> int" where
  "rotator_index width height angle0 =
     scatter_index width height (rotator_box width height angle0)
       (c_div width 2) (c_div height 2)
       (sin (angle0 * (- 1) * pi / 180)) (cos (angle0 * (- 1) * pi / 180))"

text \<open>The source cells in the order of the scan: row by row.\<close>

definition source_cells :: "int \<Rightarrow> int \<Rightarrow> (int \<times> int) list" where
  "source_cells width height = List.product [0..height - 1] [0..width - 1]"

text \<open>
  The source cells of non-zero opacity whose scatter index is \<open>k\<close>, in scan order.
\<close>

definition hits :: "int list \<Rightarrow> int \<Rightarrow> int \<Rightarrow> (int \<Rightarrow> int \<Rightarrow> int) \<Rightarrow> int \<Rightarrow> (int \<times> int) list" where
  "hits alphaMap width height idx k =
     filter (\<lambda>(i, j). alphaMap ! nat (i * width + j) \<noteq> 0 \<and> idx i j = k)
       (source_cells width height)"

text \<open>
  The words of claim C1.  An opacity map is a row-major grid with a width and a
  height of its own; the rotated map has those of \<^const>\<open>rotator_box\<close>.  The map is
  non-zero at column \<open>col\<close> and row \<open>row\<close> when that cell exists and holds a non-zero
  value.
\<close>

definition opaque_at :: "int list \<Rightarrow> SDL_Rect \<Rightarrow> int \<Rightarrow> int \<Rightarrow> bool" where
  "opaque_at m box col row =
     (0 \<le> col \<and> col < rect_w box \<and> 0 \<le> row \<and> row < rect_h box \<and>
      (case rd m (row * rect_w box + col) of Inl e \<Rightarrow> False | Inr v \<Rightarrow> v \<noteq> 0))"

definition collision_claim ::
  "Texture \<Rightarrow> SDL_Rect \<Rightarrow> real \<Rightarrow> Texture \<Rightarrow> SDL_Rect \<Rightarrow> real \<Rightarrow> bool" where
  "collision_claim texture1 rect1 angle1 texture2 rect2 angle2 =
     (let box1 = getRotatedBoundingBox rect1 angle1;
          box2 = getRotatedBoundingBox rect2 angle2;
          intersection = getIntersectionRect box1 box2
      in case resizeBilinear (tex_alphaMap texture1) (tex_width texture1)
                (tex_height texture1) (rect_w rect1) (rect_h rect1) of
           Inl e \<Rightarrow> False
         | Inr resized_map1 \<Rightarrow>
         (case resizeBilinear (tex_alphaMap texture2) (tex_width texture2)
                (tex_height texture2) (rect_w rect2) (rect_h rect2) of
           Inl e \<Rightarrow> False
         | Inr resized_map2 \<Rightarrow>
         (case getRotatedAlphaMap resized_map1 (rect_w rect1) (rect_h rect1) angle1 of
           Inl e \<Rightarrow> False
         | Inr map_1 \<Rightarrow>
         (case getRotatedAlphaMap resized_map2 (rect_w rect2) (rect_h rect2) angle2 of
           Inl e \<Rightarrow> False
         | Inr map_2 \<Rightarrow>
             list_ex
               (\<lambda>i. list_ex
                  (\<lambda>j. opaque_at map_1 (rotator_box (rect_w rect1) (rect_h rect1) angle1)
                          (j - rect_x box1) (i - rect_y box1) \<and>
                       opaque_at map_2 (rotator_box (rect_w rect2) (rect_h rect2) angle2)
                          (j - rect_x box2) (i - rect_y box2))
                  [rect_x intersection .. rect_x intersection + rect_w intersection - 1])
               [rect_y intersection .. rect_y intersection + rect_h intersection - 1]))))"

text \<open>The body of the two loops of \<^const>\<open>scatter\<close>, for one source cell.\<close>

definition scatter_step :: "int list \<Rightarrow> int \<Rightarrow> (int \<Rightarrow> int \<Rightarrow> int) \<Rightarrow> int \<times> int \<Rightarrow> int list \<Rightarrow> fault + int list" where
  "scatter_step alphaMap width idx = (\<lambda>(i, j) result.
     case rd alphaMap (i * width + j) of
       Inl e \<Rightarrow> Inl e
     | Inr a \<Rightarrow> if a \<noteq> 0 then wr result (idx i j) a else Inr result)"

text \<open>The opacity of a source cell.\<close>

definition cell_value :: "int list \<Rightarrow> int \<Rightarrow> int \<times> int \<Rightarrow> int" where
  "cell_value alphaMap width = (\<lambda>(i, j). alphaMap ! nat (i * width + j))"

text \<open>The range of an opacity value.\<close>

definition in_byte :: "int \<Rightarrow> bool" where
  "in_byte v = (0 \<le> v \<and> v \<le> 255)"

text \<open>
  A fully opaque map of 10 by 10 cells rotated by 0 degrees: 11 by 11 cells, the last
  column and the last row zero.
\<close>

definition opaque_11 :: "int list" where
  "opaque_11 = concat (replicate 10 (replicate 10 255 @ [0])) @ replicate 11 0"

section \<open>The rotator over the arithmetic of the machine\<close>

text \<open>
  In the definitions above a \<^verbatim>\<open>double\<close> is a real number and its operations are those
  of the reals.  The operations of the machine round their results, so the sine of
  an angle, a product or a sum may differ from the real one in the last place, and
  \<^verbatim>\<open>ceil\<close> and \<^verbatim>\<open>round\<close> can turn that into a different integer.  Here the
  two functions of the rotator are written once more, line by line as above, with the
  operations on \<^verbatim>\<open>double\<close> taken from a record: the constant \<^verbatim>\<open>M_PI\<close>, \<^verbatim>\<open>sin\<close>,
  \<^verbatim>\<open>cos\<close>, and the product, the quotient, the sum and the difference of two
  doubles.  A \<^verbatim>\<open>double\<close> is still the real number it denotes; the conversion of an
  \<^verbatim>\<open>int\<close> to \<^verbatim>\<open>double\<close> is exact, and so are \<^verbatim>\<open>ceil\<close>, \<^verbatim>\<open>round\<close> and the
  conversion of their results to \<^verbatim>\<open>int\<close>.  What holds for every such record holds for
  the arithmetic the program runs on.
\<close>

record fp_ops =
  fp_pi :: real
  fp_sin :: "real \<Rightarrow> real"
  fp_cos :: "real \<Rightarrow> real"
  fp_mul :: "real \<Rightarrow> real \<Rightarrow> real"
  fp_div :: "real \<Rightarrow> real \<Rightarrow> real"
  fp_add :: "real \<Rightarrow> real \<Rightarrow> real"
  fp_sub :: "real \<Rightarrow> real \<Rightarrow> real"

text \<open>The operations of the reals; with them the functions below are those above.\<close>

definition exact_ops :: fp_ops where
  "exact_ops = \<lparr>fp_pi = pi, fp_sin = sin, fp_cos = cos, fp_mul = (*), fp_div = (/),
     fp_add = (+), fp_sub = (-)\<rparr>"

text \<open>\<^verbatim>\<open>getRotatedBoundingBox\<close>.\<close>

definition getRotatedBoundingBox_fp :: "fp_ops \<Rightarrow> SDL_Rect \<Rightarrow> real \<Rightarrow> SDL_Rect" where
  "getRotatedBoundingBox_fp fp rect0 angle =
     (let c_x = rect_x rect0 + c_div (rect_w rect0) 2;
          c_y = rect_y rect0 + c_div (rect_h rect0) 2;
          rect = rect0\<lparr>rect_x := rect_x rect0 - c_x, rect_y := rect_y rect0 - c_y\<rparr>;
          angle_sin = fp_sin fp (fp_div fp (fp_mul fp angle (fp_pi fp)) 180);
          angle_cos = fp_cos fp (fp_div fp (fp_mul fp angle (fp_pi fp)) 180);
          x1 = rect_x rect; x4 = rect_x rect;
          x2 = rect_x rect + rect_w rect; x3 = rect_x rect + rect_w rect;
          y1 = rect_y rect; y2 = rect_y rect;
          y3 = rect_y rect + rect_h rect; y4 = rect_y rect + rect_h rect;
          x1_2 = c_ceil (fp_add fp (fp_mul fp (real_of_int y1) angle_sin)
                                   (fp_mul fp (real_of_int x1) angle_cos));
          y1_2 = c_ceil (fp_sub fp (fp_mul fp (real_of_int y1) angle_cos)
                                   (fp_mul fp (real_of_int x1) angle_sin));
          x2_2 = c_ceil (fp_add fp (fp_mul fp (real_of_int y2) angle_sin)
                                   (fp_mul fp (real_of_int x2) angle_cos));
          y2_2 = c_ceil (fp_sub fp (fp_mul fp (real_of_int y2) angle_cos)
                                   (fp_mul fp (real_of_int x2) angle_sin));
          x3_2 = c_ceil (fp_add fp (fp_mul fp (real_of_int y3) angle_sin)
                                   (fp_mul fp (real_of_int x3) angle_cos));
          y3_2 = c_ceil (fp_sub fp (fp_mul fp (real_of_int y3) angle_cos)
                                   (fp_mul fp (real_of_int x3) angle_sin));
          x4_2 = c_ceil (fp_add fp (fp_mul fp (real_of_int y4) angle_sin)
                                   (fp_mul fp (real_of_int x4) angle_cos));
          y4_2 = c_ceil (fp_sub fp (fp_mul fp (real_of_int y4) angle_cos)
                                   (fp_mul fp (real_of_int x4) angle_sin));
          x1 = min x1_2 (min x2_2 (min x3_2 x4_2));
          x2 = max x1_2 (max x2_2 (max x3_2 x4_2));
          y1 = min y1_2 (min y2_2 (min y3_2 y4_2));
          y2 = y1;
          y3 = max y1_2 (max y2_2 (max y3_2 y4_2))
      in \<lparr>rect_x = x1 + c_x, rect_y = y1 + c_y,
          rect_w = x2 - x1 + 1, rect_h = y3 - y2 + 1\<rparr>)"

text \<open>The index of the scatter write of \<^verbatim>\<open>getRotatedAlphaMap\<close>.\<close>

definition scatter_index_fp ::
  "fp_ops \<Rightarrow> int \<Rightarrow> int \<Rightarrow> SDL_Rect \<Rightarrow> int \<Rightarrow> int \<Rightarrow> real \<Rightarrow> real \<Rightarrow> int \<Rightarrow> int \<Rightarrow> int" where
  "scatter_index_fp fp width height boundingBox c_x c_y angle_sin angle_cos i j =
     (let x = c_round (fp_add fp (fp_mul fp (real_of_int (i - c_y)) angle_sin)
                                 (fp_mul fp (real_of_int (j - c_x)) angle_cos));
          y = c_round (fp_sub fp (fp_mul fp (real_of_int (i - c_y)) angle_cos)
                                 (fp_mul fp (real_of_int (j - c_x)) angle_sin))
      in (y + c_y + c_div (rect_h boundingBox - height) 2) * rect_w boundingBox
           + x + c_x + c_div (rect_w boundingBox - width) 2)"

text \<open>\<^verbatim>\<open>getRotatedAlphaMap\<close>.\<close>

definition getRotatedAlphaMap_fp :: "fp_ops \<Rightarrow> int list \<Rightarrow> int \<Rightarrow> int \<Rightarrow> real \<Rightarrow> fault + int list" where
  "getRotatedAlphaMap_fp fp alphaMap width height angle0 =
     (let angle = fp_mul fp angle0 (- 1);
          angle_sin = fp_sin fp (fp_div fp (fp_mul fp angle (fp_pi fp)) 180);
          angle_cos = fp_cos fp (fp_div fp (fp_mul fp angle (fp_pi fp)) 180);
          boundingBox = getRotatedBoundingBox_fp fp
             \<lparr>rect_x = 0, rect_y = 0, rect_w = width, rect_h = height\<rparr> angle;
          c_x = c_div width 2;
          c_y = c_div height 2
      in case new_int (rect_w boundingBox * rect_h boundingBox) of
           Inl e \<Rightarrow> Inl e
         | Inr result \<Rightarrow>
             scatter alphaMap width height
               (scatter_index_fp fp width height boundingBox c_x c_y angle_sin angle_cos) result)"

subsection \<open>The words of claim C6\<close>

text \<open>
  The rotated map is a grid with the width and the height of the bounding box of the
  source map, rotated by the negated angle about its centre.
\<close>

definition rotated_box :: "fp_ops \<Rightarrow> int \<Rightarrow> int \<Rightarrow> real \<Rightarrow> SDL_Rect" where
  "rotated_box fp width height angle =
     getRotatedBoundingBox_fp fp \<lparr>rect_x = 0, rect_y = 0, rect_w = width, rect_h = height\<rparr>
       (fp_mul fp angle (- 1))"

text \<open>
  The rounded rotated position of the source cell in row \<open>i\<close> and column \<open>j\<close>: its
  position relative to the centre \<open>(width / 2, height / 2)\<close>, rotated by the negated
  angle, each coordinate rounded to the nearest integer.  The result is the pair of
  the column and the row, relative to the centre.
\<close>

definition rounded_rotated_position :: "fp_ops \<Rightarrow> int \<Rightarrow> int \<Rightarrow> real \<Rightarrow> int \<Rightarrow> int \<Rightarrow> int \<times> int" where
  "rounded_rotated_position fp width height angle i j =
     (let radians = fp_div fp (fp_mul fp (fp_mul fp angle (- 1)) (fp_pi fp)) 180;
          row = real_of_int (i - c_div height 2);
          col = real_of_int (j - c_div width 2)
      in (c_round (fp_add fp (fp_mul fp row (fp_sin fp radians)) (fp_mul fp col (fp_cos fp radians))),
          c_round (fp_sub fp (fp_mul fp row (fp_cos fp radians)) (fp_mul fp col (fp_sin fp radians)))))"

text \<open>
  The destination cell that position maps to: the position is moved back by the centre
  of the source map and by half of what the rotated map is wider and higher than the
  source map, and the cells of the rotated map are numbered row by row.
\<close>

definition destination_cell :: "fp_ops \<Rightarrow> int \<Rightarrow> int \<Rightarrow> real \<Rightarrow> int \<Rightarrow> int \<Rightarrow> int" where
  "destination_cell fp width height angle i j =
     (case rounded_rotated_position fp width height angle i j of
        (x, y) \<Rightarrow>
          (y + c_div height 2 + c_div (rect_h (rotated_box fp width height angle) - height) 2)
            * rect_w (rotated_box fp width height angle)
          + x + c_div width 2 + c_div (rect_w (rotated_box fp width height angle) - width) 2)"

text \<open>
  The rotated map as the claim describes it: a cell holds 0 when no source cell of
  non-zero opacity has it as its destination cell, and otherwise the opacity of the
  last such source cell in the order of the scan.
\<close>

definition last_write_map :: "fp_ops \<Rightarrow> int list \<Rightarrow> int \<Rightarrow> int \<Rightarrow> real \<Rightarrow> int list" where
  "last_write_map fp alphaMap width height angle =
     map (\<lambda>k. case hits alphaMap width height (destination_cell fp width height angle) (int k) of
                 [] \<Rightarrow> 0
               | hs \<Rightarrow> cell_value alphaMap width (last hs))
       [0 ..< nat (rect_w (rotated_box fp width height angle) *
                   rect_h (rotated_box fp width height angle))]"

section \<open>Properties of the rectangle functions\<close>

text \<open>
  Claim C8, as amended.  A rectangle of positive width and positive height intersected
  with itself is that rectangle.
\<close>

theorem getIntersectionRect_self:
  "0 < rect_w A \<Longrightarrow> 0 < rect_h A \<Longrightarrow> getIntersectionRect A A = A"
  by (simp add: getIntersectionRect_def)

theorem getIntersectionRect_self_witness:
  "0 < rect_w \<lparr>rect_x = 3, rect_y = 4, rect_w = 10, rect_h = 5\<rparr> \<and>
   0 < rect_h \<lparr>rect_x = 3, rect_y = 4, rect_w = 10, rect_h = 5\<rparr> \<and>
   getIntersectionRect \<lparr>rect_x = 3, rect_y = 4, rect_w = 10, rect_h = 5\<rparr>
       \<lparr>rect_x = 3, rect_y = 4, rect_w = 10, rect_h = 5\<rparr>
     = \<lparr>rect_x = 3, rect_y = 4, rect_w = 10, rect_h = 5\<rparr>"
  using getIntersectionRect_self [of "\<lparr>rect_x = 3, rect_y = 4, rect_w = 10, rect_h = 5\<rparr>"]
  by simp


text \<open>In every other case the result is the sentinel.\<close>

lemma getIntersectionRect_self_degenerate:
  "\<not> (0 < rect_w A \<and> 0 < rect_h A) \<Longrightarrow>
   getIntersectionRect A A = \<lparr>rect_x = 0, rect_y = 0, rect_w = 0, rect_h = 0\<rparr>"
  by (auto simp: getIntersectionRect_def Let_def)

text \<open>
  Claim C8 as stated fails: a rectangle of width 0 intersected with itself is the
  sentinel \<open>{0,0,0,0}\<close>, not the rectangle.
\<close>

theorem getIntersectionRect_self_counterexample:
  "getIntersectionRect \<lparr>rect_x = 3, rect_y = 4, rect_w = 0, rect_h = 5\<rparr>
       \<lparr>rect_x = 3, rect_y = 4, rect_w = 0, rect_h = 5\<rparr>
     \<noteq> \<lparr>rect_x = 3, rect_y = 4, rect_w = 0, rect_h = 5\<rparr>"
  by (simp add: getIntersectionRect_def)

text \<open>
  Claim C4, as amended.  At angle 0 the bounding box of a rectangle of non-negative
  width and height keeps the rectangle's \<open>x\<close> and \<open>y\<close>, and is one wider and one
  higher: the corners are taken at \<open>x\<close> and \<open>x + w\<close>, and the size is the inclusive
  count \<open>max - min + 1\<close>.
\<close>

theorem getRotatedBoundingBox_zero_angle:
  "0 \<le> rect_w R \<Longrightarrow> 0 \<le> rect_h R \<Longrightarrow>
   getRotatedBoundingBox R 0 =
     \<lparr>rect_x = rect_x R, rect_y = rect_y R, rect_w = rect_w R + 1, rect_h = rect_h R + 1\<rparr>"
  by (simp add: getRotatedBoundingBox_def c_ceil_def Let_def)

theorem getRotatedBoundingBox_zero_angle_witness:
  "0 \<le> rect_w \<lparr>rect_x = 0, rect_y = 0, rect_w = 10, rect_h = 10\<rparr> \<and>
   0 \<le> rect_h \<lparr>rect_x = 0, rect_y = 0, rect_w = 10, rect_h = 10\<rparr> \<and>
   getRotatedBoundingBox \<lparr>rect_x = 0, rect_y = 0, rect_w = 10, rect_h = 10\<rparr> 0 =
     \<lparr>rect_x = 0, rect_y = 0, rect_w = 11, rect_h = 11\<rparr>"
  using getRotatedBoundingBox_zero_angle [of "\<lparr>rect_x = 0, rect_y = 0, rect_w = 10, rect_h = 10\<rparr>"]
  by simp

text \<open>
  Claim C4 as stated fails: the bounding box of \<open>{0,0,10,10}\<close> at angle 0 is
  \<open>{0,0,11,11}\<close>.
\<close>

theorem getRotatedBoundingBox_zero_angle_counterexample:
  "getRotatedBoundingBox \<lparr>rect_x = 0, rect_y = 0, rect_w = 10, rect_h = 10\<rparr> 0
     \<noteq> \<lparr>rect_x = 0, rect_y = 0, rect_w = 10, rect_h = 10\<rparr>"
  by (simp add: getRotatedBoundingBox_def c_ceil_def c_div_def Let_def)

section \<open>Angle 0\<close>

lemma c_round_of_int: "c_round (real_of_int k) = k"
proof (cases "0 \<le> k")
  case True
  have "\<lfloor>real_of_int k + 1 / 2\<rfloor> = k" by linarith
  with True show ?thesis by (simp add: c_round_def)
next
  case False
  have "\<lceil>real_of_int k - 1 / 2\<rceil> = k" by linarith
  with False show ?thesis by (simp add: c_round_def)
qed

lemma c_round_diff: "c_round (real_of_int a - real_of_int b) = a - b"
  using c_round_of_int [of "a - b"] by simp

lemma bbox_angle0:
  "0 \<le> rect_w R \<Longrightarrow> 0 \<le> rect_h R \<Longrightarrow>
   getRotatedBoundingBox R 0 =
     \<lparr>rect_x = rect_x R, rect_y = rect_y R, rect_w = rect_w R + 1, rect_h = rect_h R + 1\<rparr>"
  by (simp add: getRotatedBoundingBox_def c_ceil_def Let_def)

lemma rotator_box_angle0:
  "0 \<le> width \<Longrightarrow> 0 \<le> height \<Longrightarrow>
   rotator_box width height 0 =
     \<lparr>rect_x = 0, rect_y = 0, rect_w = width + 1, rect_h = height + 1\<rparr>"
  by (simp add: rotator_box_def bbox_angle0)

lemma c_div_1_2: "c_div 1 2 = 0"
  by (simp add: c_div_def)

lemma rotator_index_angle0:
  "0 \<le> width \<Longrightarrow> 0 \<le> height \<Longrightarrow> rotator_index width height 0 i j = i * (width + 1) + j"
  by (simp add: rotator_index_def rotator_box_angle0 scatter_index_def c_round_diff c_div_1_2
      Let_def)

lemma getRotatedAlphaMap_unfold:
  "getRotatedAlphaMap alphaMap width height angle0 =
     (case new_int (rect_w (rotator_box width height angle0) *
                    rect_h (rotator_box width height angle0)) of
        Inl e \<Rightarrow> Inl e
      | Inr result \<Rightarrow> scatter alphaMap width height (rotator_index width height angle0) result)"
  unfolding getRotatedAlphaMap_def rotator_box_def rotator_index_def Let_def ..

lemma new_int_nonneg: "0 \<le> n \<Longrightarrow> new_int n = Inr (replicate (nat n) 0)"
  by (simp add: new_int_def)

lemma getRotatedAlphaMap_angle0:
  assumes "0 \<le> width" "0 \<le> height"
  shows "getRotatedAlphaMap alphaMap width height 0 =
     scatter alphaMap width height (\<lambda>i j. i * (width + 1) + j)
       (replicate (nat ((width + 1) * (height + 1))) 0)"
proof -
  have idx: "rotator_index width height 0 = (\<lambda>i j. i * (width + 1) + j)"
    using assms by (intro ext) (simp add: rotator_index_angle0)
  have "0 \<le> (width + 1) * (height + 1)"
    using assms by simp
  then have alloc: "new_int ((width + 1) * (height + 1)) =
      Inr (replicate (nat ((width + 1) * (height + 1))) 0)"
    by (rule new_int_nonneg)
  show ?thesis
    unfolding getRotatedAlphaMap_unfold rotator_box_angle0 [OF assms] idx
    by (simp add: alloc)
qed

section \<open>The cheap reject of hasCollision\<close>

text \<open>
  Claim C2.  When the intersection of the two rotated bounding boxes is the sentinel
  \<open>{0,0,0,0}\<close>, \<^const>\<open>hasCollision\<close> returns \<open>false\<close> and has called neither the
  resampler nor the rotator.
\<close>

theorem hasCollision_cheap_reject:
  "getIntersectionRect (getRotatedBoundingBox rect1 angle1) (getRotatedBoundingBox rect2 angle2)
     = \<lparr>rect_x = 0, rect_y = 0, rect_w = 0, rect_h = 0\<rparr> \<Longrightarrow>
   hasCollision texture1 rect1 angle1 texture2 rect2 angle2 = (Inr False, [])"
  by (simp add: hasCollision_def Let_def)

theorem hasCollision_cheap_reject_witness:
  "getIntersectionRect
     (getRotatedBoundingBox \<lparr>rect_x = 0, rect_y = 0, rect_w = 10, rect_h = 10\<rparr> 0)
     (getRotatedBoundingBox \<lparr>rect_x = 100, rect_y = 100, rect_w = 10, rect_h = 10\<rparr> 0)
     = \<lparr>rect_x = 0, rect_y = 0, rect_w = 0, rect_h = 0\<rparr> \<and>
   hasCollision \<lparr>tex_width = 10, tex_height = 10, tex_alphaMap = replicate 100 255\<rparr>
     \<lparr>rect_x = 0, rect_y = 0, rect_w = 10, rect_h = 10\<rparr> 0
     \<lparr>tex_width = 10, tex_height = 10, tex_alphaMap = replicate 100 255\<rparr>
     \<lparr>rect_x = 100, rect_y = 100, rect_w = 10, rect_h = 10\<rparr> 0 = (Inr False, [])"
proof -
  have sentinel: "getIntersectionRect
     (getRotatedBoundingBox \<lparr>rect_x = 0, rect_y = 0, rect_w = 10, rect_h = 10\<rparr> 0)
     (getRotatedBoundingBox \<lparr>rect_x = 100, rect_y = 100, rect_w = 10, rect_h = 10\<rparr> 0)
     = \<lparr>rect_x = 0, rect_y = 0, rect_w = 0, rect_h = 0\<rparr>"
    by (simp add: bbox_angle0 getIntersectionRect_def)
  from sentinel hasCollision_cheap_reject [OF sentinel] show ?thesis
    by simp
qed

section \<open>Two edge-adjacent opaque sprites\<close>

lemma resize_10: "resizeBilinear (replicate 100 255) 10 10 10 10 = Inr (replicate 100 255)"
  by code_simp

lemma scatter_10:
  "scatter (replicate 100 255) 10 10 (\<lambda>i j. i * 11 + j) (replicate 121 0) = Inr opaque_11"
  by code_simp

lemma rotate_10: "getRotatedAlphaMap (replicate 100 255) 10 10 0 = Inr opaque_11"
  by (simp add: getRotatedAlphaMap_angle0 scatter_10)

lemma scan_adjacent:
  "scan opaque_11 opaque_11 \<lparr>rect_x = 0, rect_y = 0, rect_w = 11, rect_h = 11\<rparr>
     \<lparr>rect_x = 10, rect_y = 0, rect_w = 11, rect_h = 11\<rparr>
     \<lparr>rect_x = 10, rect_y = 0, rect_w = 1, rect_h = 11\<rparr> = Inr False"
  by code_simp

text \<open>
  Claim C7.  Two fully opaque textures of 10 by 10 cells at \<open>{0,0,10,10}\<close> and
  \<open>{10,0,10,10}\<close>, both at angle 0: \<^const>\<open>hasCollision\<close> returns \<open>false\<close>.  The
  bounding boxes \<open>{0,0,11,11}\<close> and \<open>{10,0,11,11}\<close> do overlap, in the column
  \<open>x = 10\<close>; the scan finds the first map zero there.
\<close>

theorem hasCollision_edge_adjacent:
  "fst (hasCollision \<lparr>tex_width = 10, tex_height = 10, tex_alphaMap = replicate 100 255\<rparr>
          \<lparr>rect_x = 0, rect_y = 0, rect_w = 10, rect_h = 10\<rparr> 0
          \<lparr>tex_width = 10, tex_height = 10, tex_alphaMap = replicate 100 255\<rparr>
          \<lparr>rect_x = 10, rect_y = 0, rect_w = 10, rect_h = 10\<rparr> 0) = Inr False"
  by (simp add: hasCollision_def bbox_angle0 getIntersectionRect_def resize_10 rotate_10
      scan_adjacent Let_def)

section \<open>Angles of 45 and 135 degrees\<close>

text \<open>
  At these angles the sine and the cosine are \<open>\<plusminus> sqrt 2 / 2\<close>.  In the two runs
  below every minimum, maximum and rounded value is decided by a number that is either
  an exact 0 or lies more than 0.08 away from the next integer (for \<^verbatim>\<open>ceil\<close>) or
  half-integer (for \<^verbatim>\<open>round\<close>), so evaluation in IEEE double yields the same
  integers as the evaluation over the reals.
\<close>

lemma sqrt2_lower: "1414 / 1000 < sqrt 2"
  by (rule real_less_rsqrt) (simp add: power2_eq_square)

lemma sqrt2_upper: "sqrt 2 < 1415 / 1000"
  by (rule real_less_lsqrt) (simp_all add: power2_eq_square)

lemma sin_135: "sin (3 * pi / 4) = sqrt 2 / 2"
proof -
  have "sin (3 * pi / 4) = sin (pi - pi / 4)" by simp
  also have "\<dots> = sin (pi / 4)" by (rule sin_pi_minus)
  finally show ?thesis by (simp add: sin_45)
qed

lemma cos_135: "cos (3 * pi / 4) = - (sqrt 2 / 2)"
proof -
  have "cos (3 * pi / 4) = cos (pi - pi / 4)" by simp
  also have "\<dots> = - cos (pi / 4)" by (rule cos_pi_minus)
  finally show ?thesis by (simp add: cos_45)
qed

lemma ceiling_sqrt2:
  "\<lceil>2 * sqrt 2\<rceil> = 3" "\<lceil>3 * sqrt 2 / 2\<rceil> = 3" "\<lceil>5 * sqrt 2 / 2\<rceil> = 4"
  "\<lceil>- (2 * sqrt 2)\<rceil> = - 2" "\<lceil>- (3 * sqrt 2 / 2)\<rceil> = - 2" "\<lceil>- (5 * sqrt 2 / 2)\<rceil> = - 3"
  "\<lceil>sqrt 2\<rceil> = 2" "\<lceil>sqrt 2 / 2\<rceil> = 1" "\<lceil>- (sqrt 2 / 2)\<rceil> = 0"
  using sqrt2_lower sqrt2_upper by (simp_all add: ceiling_eq_iff)

lemma c_round_2_sqrt2: "c_round (2 * sqrt 2) = 3"
  using sqrt2_lower sqrt2_upper by (simp add: c_round_def floor_eq_iff)

subsection \<open>A scatter write outside the rotated map\<close>

lemma rotator_box_1_8_135:
  "rotator_box 1 8 135 = \<lparr>rect_x = - 3, rect_y = 2, rect_w = 7, rect_h = 7\<rparr>"
  by (simp add: rotator_box_def getRotatedBoundingBox_def Let_def c_div_def sin_135 cos_135
      c_ceil_def ceiling_sqrt2)

lemma rotator_index_1_8_135: "rotator_index 1 8 135 0 0 = 55"
  by (simp add: rotator_index_def scatter_index_def Let_def c_div_def sin_135 cos_135
      rotator_box_1_8_135 c_round_2_sqrt2)

text \<open>
  Claim C10 fails on the code.  For a map one cell wide and eight cells high rotated
  by 135 degrees the result has 7 times 7 = 49 cells, and the scatter write for the
  source cell in row 0, column 0 goes to index \<open>(3 + 4 + 0) * 7 + 3 + 0 + 3 = 55\<close>,
  that is, to row 7 of a map with the rows \<open>0 .. 6\<close>: the rotated corners lie in the
  rows \<open>-2 .. 4\<close> around the centre, but the write adds the offset
  \<open>c_y + (boundingBox.h - height) / 2 = 4\<close> to the rounded row 3.  The model reports
  the write as out of bounds.
\<close>

theorem getRotatedAlphaMap_out_of_bounds:
  "rotator_box 1 8 135 = \<lparr>rect_x = - 3, rect_y = 2, rect_w = 7, rect_h = 7\<rparr> \<and>
   rotator_index 1 8 135 0 0 = 55 \<and>
   getRotatedAlphaMap [255, 0, 0, 0, 0, 0, 0, 0] 1 8 135 = Inl OutOfBounds"
  by (simp add: rotator_box_1_8_135 rotator_index_1_8_135 getRotatedAlphaMap_unfold new_int_def
      scatter_def for_loop.simps [of 0] rd_def wr_def)

subsection \<open>A scan with the wrong row length\<close>

lemma bbox_1_1_45:
  "getRotatedBoundingBox \<lparr>rect_x = 0, rect_y = 0, rect_w = 1, rect_h = 1\<rparr> 45 =
     \<lparr>rect_x = 0, rect_y = 0, rect_w = 3, rect_h = 2\<rparr>"
  by (simp add: getRotatedBoundingBox_def Let_def c_div_def sin_45 cos_45 c_ceil_def ceiling_sqrt2)

lemma rotator_box_1_1_45:
  "rotator_box 1 1 45 = \<lparr>rect_x = 0, rect_y = 0, rect_w = 2, rect_h = 3\<rparr>"
  by (simp add: rotator_box_def getRotatedBoundingBox_def Let_def c_div_def sin_45 cos_45
      c_ceil_def ceiling_sqrt2)

lemma rotator_index_1_1_45: "rotator_index 1 1 45 0 0 = 2"
  by (simp add: rotator_index_def scatter_index_def Let_def c_div_def rotator_box_1_1_45
      c_round_def)

lemma rotate_1_1_45: "getRotatedAlphaMap [255] 1 1 45 = Inr [0, 0, 255, 0, 0, 0]"
  by (simp add: rotator_box_1_1_45 rotator_index_1_1_45 getRotatedAlphaMap_unfold new_int_def
      scatter_def for_loop.simps [of 0] for_loop.simps [of 1] rd_def wr_def numeral_eq_Suc)

lemma rotate_1_1_0: "getRotatedAlphaMap [255] 1 1 0 = Inr [255, 0, 0, 0]"
proof -
  have "scatter [255] 1 1 (\<lambda>i j. i * 2 + j) (replicate 4 0) = Inr [255, 0, 0, 0]"
    by code_simp
  then show ?thesis by (simp add: getRotatedAlphaMap_angle0)
qed

lemma resize_2_to_1: "resizeBilinear [255, 255, 255, 255] 2 2 1 1 = Inr [255]"
  by code_simp

lemma scan_misaligned:
  "scan [0, 0, 255, 0, 0, 0] [255, 0, 0, 0] \<lparr>rect_x = 0, rect_y = 0, rect_w = 3, rect_h = 2\<rparr>
     \<lparr>rect_x = 2, rect_y = 0, rect_w = 2, rect_h = 2\<rparr>
     \<lparr>rect_x = 2, rect_y = 0, rect_w = 1, rect_h = 2\<rparr> = Inr True"
  by code_simp

text \<open>
  Claim C1 fails on the code.  Two opaque textures of 2 by 2 cells are drawn as single
  pixels, the first at \<open>{0,0,1,1}\<close> turned by 45 degrees, the second at \<open>{2,0,1,1}\<close>
  at angle 0.  \<^const>\<open>hasCollision\<close> takes the bounding box of the first sprite at
  +45 degrees, \<open>{0,0,3,2}\<close>, while \<^const>\<open>getRotatedAlphaMap\<close> sizes the rotated map
  by the box at -45 degrees, 2 wide and 3 high.  The scan reads the map with rows of
  length 3, finds its only opaque cell (column 0, row 1) at column 2 of row 0, and
  returns \<open>true\<close>.  By the words of the claim (\<^const>\<open>collision_claim\<close>) there is no
  collision: the first map has no column 2.  The code and the claim agree whenever
  box and map have the same size (lemma \<open>hasCollision_aligned\<close> below).
\<close>

theorem hasCollision_misaligned:
  "fst (hasCollision \<lparr>tex_width = 2, tex_height = 2, tex_alphaMap = [255, 255, 255, 255]\<rparr>
          \<lparr>rect_x = 0, rect_y = 0, rect_w = 1, rect_h = 1\<rparr> 45
          \<lparr>tex_width = 2, tex_height = 2, tex_alphaMap = [255, 255, 255, 255]\<rparr>
          \<lparr>rect_x = 2, rect_y = 0, rect_w = 1, rect_h = 1\<rparr> 0) = Inr True \<and>
   \<not> collision_claim \<lparr>tex_width = 2, tex_height = 2, tex_alphaMap = [255, 255, 255, 255]\<rparr>
          \<lparr>rect_x = 0, rect_y = 0, rect_w = 1, rect_h = 1\<rparr> 45
          \<lparr>tex_width = 2, tex_height = 2, tex_alphaMap = [255, 255, 255, 255]\<rparr>
          \<lparr>rect_x = 2, rect_y = 0, rect_w = 1, rect_h = 1\<rparr> 0"
  by (simp add: hasCollision_def collision_claim_def bbox_1_1_45 bbox_angle0
      getIntersectionRect_def resize_2_to_1 rotate_1_1_45 rotate_1_1_0 scan_misaligned
      rotator_box_1_1_45 rotator_box_angle0 opaque_at_def upto.simps Let_def)

section \<open>The range of the resampled values\<close>

lemma for_loop_inv:
  assumes "for_loop i n body s = Inr s'"
    and "I i s"
    and "\<And>k t t'. i \<le> k \<Longrightarrow> k < n \<Longrightarrow> I k t \<Longrightarrow> body k t = Inr t' \<Longrightarrow> I (k + 1) t'"
  shows "I (max i n) s'"
  using assms
proof (induction i n body s rule: for_loop.induct)
  case (1 i n body s)
  show ?case
  proof (cases "i < n")
    case False
    with "1.prems"(1,2) show ?thesis
      by (simp add: for_loop.simps [of i] max_def)
  next
    case True
    then obtain t where t: "body i s = Inr t" and rest: "for_loop (i + 1) n body t = Inr s'"
      using "1.prems"(1) by (simp add: for_loop.simps [of i] split: sum.splits)
    have "I (i + 1) t"
      using "1.prems"(3) [OF _ True "1.prems"(2) t] by simp
    then have "I (max (i + 1) n) s'"
      using "1.IH" [OF True t rest] "1.prems"(3) by simp
    with True show ?thesis by (simp add: max_def)
  qed
qed

lemma and_255_range: "0 \<le> (p::int) AND 255" "(p::int) AND 255 \<le> 255"
  by (simp_all add: AND_upper2)

lemma blend_range:
  fixes A B C D a b c d :: int
  assumes A: "0 \<le> A" "A \<le> 255" and B: "0 \<le> B" "B \<le> 255"
    and C: "0 \<le> C" "C \<le> 255" and D: "0 \<le> D" "D \<le> 255"
    and a: "0 \<le> a" and b: "0 \<le> b" and c: "0 \<le> c" and d: "0 \<le> d"
    and ac: "a + c = 65536" and bd: "b + d = 65536"
  shows "0 \<le> drop_bit 32 (A * a * b + B * c * b + C * d * a + D * c * d)"
    and "drop_bit 32 (A * a * b + B * c * b + C * d * a + D * c * d) \<le> 255"
proof -
  let ?S = "A * a * b + B * c * b + C * d * a + D * c * d"
  have nn: "0 \<le> a * b" "0 \<le> c * b" "0 \<le> d * a" "0 \<le> c * d"
    using a b c d by simp_all
  have "0 \<le> A * (a * b)" "0 \<le> B * (c * b)" "0 \<le> C * (d * a)" "0 \<le> D * (c * d)"
    using A B C D nn by simp_all
  then have S0: "0 \<le> ?S" by (simp add: mult.assoc)
  have "A * (a * b) \<le> 255 * (a * b)" "B * (c * b) \<le> 255 * (c * b)"
       "C * (d * a) \<le> 255 * (d * a)" "D * (c * d) \<le> 255 * (c * d)"
    using A B C D nn by (simp_all add: mult_right_mono)
  then have "?S \<le> 255 * (a * b + c * b + d * a + c * d)"
    by (simp add: mult.assoc distrib_left)
  also have "a * b + c * b + d * a + c * d = (a + c) * (b + d)"
    by (simp add: algebra_simps)
  also have "\<dots> = 4294967296" by (simp add: ac bd)
  finally have S1: "?S \<le> 255 * 4294967296" .
  show "0 \<le> drop_bit 32 ?S" using S0 by simp
  have "?S div 4294967296 \<le> 255"
    using S1 by simp
  then show "drop_bit 32 ?S \<le> 255" by (simp add: drop_bit_eq_div)
qed

lemma frac16: "0 \<le> x - push_bit 16 (drop_bit 16 x)" "x - push_bit 16 (drop_bit 16 x) \<le> 65535"
  for x :: int
proof -
  have "x - push_bit 16 (drop_bit 16 x) = x mod 65536"
    by (simp add: push_bit_eq_mult drop_bit_eq_div minus_div_mult_eq_mod)
  then show "0 \<le> x - push_bit 16 (drop_bit 16 x)" "x - push_bit 16 (drop_bit 16 x) \<le> 65535"
    by simp_all
qed

lemma resize_sample_range:
  assumes "resize_sample pixels w y_index y_diff one_min_y_diff x = Inr alpha"
    and "0 \<le> y_diff" "y_diff \<le> 65536" "one_min_y_diff = 65536 - y_diff"
  shows "in_byte alpha"
proof -
  let ?xd = "x - push_bit 16 (drop_bit 16 x)"
  obtain p0 p1 p2 p3 where alpha: "alpha = drop_bit 32
       ((p0 AND 255) * (65536 - ?xd) * one_min_y_diff + (p1 AND 255) * ?xd * one_min_y_diff +
        (p2 AND 255) * y_diff * (65536 - ?xd) + (p3 AND 255) * ?xd * y_diff)"
    using assms(1) by (auto simp: resize_sample_def Let_def split: sum.splits)
  show ?thesis
    unfolding in_byte_def alpha
    using blend_range [of "p0 AND 255" "p1 AND 255" "p2 AND 255" "p3 AND 255"
        "65536 - ?xd" one_min_y_diff ?xd y_diff] and_255_range frac16 [of x] assms(2-4)
    by simp
qed


lemma store_next_Inr:
  "store_next capacity temp alpha = Inr temp' \<Longrightarrow> temp' = temp @ [alpha]"
  by (simp add: store_next_def split: if_splits)

lemma resize_row_inv:
  assumes run: "resize_row pixels w w2 capacity x_ratio y_index y_diff one_min_y_diff temp0 = Inr temp"
    and y: "0 \<le> y_diff" "y_diff \<le> 65536" "one_min_y_diff = 65536 - y_diff"
    and init: "\<forall>v\<in>set temp0. in_byte v"
  shows "(\<forall>v\<in>set temp. in_byte v) \<and> int (length temp) = int (length temp0) + max 0 w2"
proof -
  let ?body = "\<lambda>(j::int) (x, temp).
           case resize_sample pixels w y_index y_diff one_min_y_diff x of
             Inl e \<Rightarrow> Inl e
           | Inr alpha \<Rightarrow>
              (case store_next capacity temp alpha of
                 Inl e \<Rightarrow> Inl e
               | Inr temp' \<Rightarrow> Inr (x + x_ratio, temp'))"
  let ?I = "\<lambda>j (s :: int \<times> int list).
      (\<forall>v\<in>set (snd s). in_byte v) \<and> int (length (snd s)) = int (length temp0) + j"
  obtain x where loop: "for_loop 0 w2 ?body (0, temp0) = Inr (x, temp)"
    using run by (auto simp: resize_row_def split: sum.splits)
  have "?I (max 0 w2) (x, temp)"
  proof (rule for_loop_inv [where I = ?I, OF loop])
    show "?I 0 (0, temp0)" using init by simp
  next
    fix k t t'
    assume k: "0 \<le> k" "k < w2" and inv: "?I k t" and step: "?body k t = Inr t'"
    obtain x1 temp1 where t: "t = (x1, temp1)" by (cases t)
    from step obtain alpha where
      alpha: "resize_sample pixels w y_index y_diff one_min_y_diff x1 = Inr alpha"
      and t': "t' = (x1 + x_ratio, temp1 @ [alpha])"
      by (auto simp: t split: sum.splits dest: store_next_Inr)
    have "in_byte alpha"
      using resize_sample_range [OF alpha y] .
    with inv show "?I (k + 1) t'"
      by (simp add: t t')
  qed
  then show ?thesis by simp
qed

lemma frac16': "0 \<le> y - push_bit 16 (drop_bit 16 y)" "y - push_bit 16 (drop_bit 16 y) \<le> 65536"
  for y :: int
  using frac16 [of y] by simp_all

lemma resizeBilinear_inv:
  assumes run: "resizeBilinear pixels w h w2 h2 = Inr out"
  shows "(\<forall>v\<in>set out. in_byte v) \<and> int (length out) = max 0 h2 * max 0 w2"
proof -
  let ?xr = "c_div (push_bit 16 (w - 1)) w2"
  let ?yr = "c_div (push_bit 16 (h - 1)) h2"
  let ?body = "\<lambda>(i::int) (y, temp).
                 (let yr = drop_bit 16 y;
                      y_diff = y - push_bit 16 yr;
                      one_min_y_diff = 65536 - y_diff;
                      y_index = yr * w
                  in case resize_row pixels w w2 (w2 * h2) ?xr y_index y_diff
                            one_min_y_diff temp of
                       Inl e \<Rightarrow> Inl e
                     | Inr temp' \<Rightarrow> Inr (y + ?yr, temp'))"
  let ?I = "\<lambda>i (s :: int \<times> int list).
      (\<forall>v\<in>set (snd s). in_byte v) \<and> int (length (snd s)) = i * max 0 w2"
  obtain y where loop: "for_loop 0 h2 ?body (0, []) = Inr (y, out)"
    using run by (auto simp: resizeBilinear_def Let_def split: if_splits sum.splits)
  have "?I (max 0 h2) (y, out)"
  proof (rule for_loop_inv [where I = ?I, OF loop])
    show "?I 0 (0, [])" by simp
  next
    fix k t t'
    assume k: "0 \<le> k" "k < h2" and inv: "?I k t" and step: "?body k t = Inr t'"
    obtain y1 temp1 where t: "t = (y1, temp1)" by (cases t)
    let ?yd = "y1 - push_bit 16 (drop_bit 16 y1)"
    from step obtain temp2 where
      row: "resize_row pixels w w2 (w2 * h2) ?xr (drop_bit 16 y1 * w) ?yd (65536 - ?yd) temp1
              = Inr temp2"
      and t': "t' = (y1 + ?yr, temp2)"
      by (auto simp: t Let_def split: sum.splits)
    have "(\<forall>v\<in>set temp2. in_byte v) \<and> int (length temp2) = int (length temp1) + max 0 w2"
      using resize_row_inv [OF row frac16' refl] inv by (simp add: t)
    with inv show "?I (k + 1) t'"
      by (simp add: t t' algebra_simps)
  qed
  then show ?thesis by simp
qed



section \<open>The cells of the rotated map\<close>

lemma for_loop_fold: "for_loop i n body s = fold_fault body [i..n - 1] s"
proof (induction i n body s rule: for_loop.induct)
  case (1 i n body s)
  show ?case
  proof (cases "i < n")
    case False
    then show ?thesis by (simp add: for_loop.simps [of i])
  next
    case True
    then have "[i..n - 1] = i # [i + 1..n - 1]"
      by (simp add: upto_rec1)
    with True "1.IH" show ?thesis
      by (simp add: for_loop.simps [of i] split: sum.splits)
  qed
qed

lemma fold_fault_append:
  "fold_fault f (xs @ ys) s =
     (case fold_fault f xs s of Inl e \<Rightarrow> Inl e | Inr s' \<Rightarrow> fold_fault f ys s')"
  by (induction xs arbitrary: s) (auto split: sum.splits)

lemma fold_fault_map: "fold_fault f (map g xs) s = fold_fault (\<lambda>x. f (g x)) xs s"
  by (induction xs arbitrary: s) (auto split: sum.splits)

lemma fold_fault_product:
  "fold_fault (\<lambda>i. fold_fault (g i) ys) xs s =
   fold_fault (\<lambda>(i, j). g i j) (List.product xs ys) s"
  by (induction xs arbitrary: s) (auto simp: fold_fault_append fold_fault_map split: sum.splits)

lemma scatter_fold:
  "scatter alphaMap width height idx result0 =
     fold_fault (scatter_step alphaMap width idx) (source_cells width height) result0"
  unfolding scatter_def source_cells_def scatter_step_def for_loop_fold
  by (simp add: fold_fault_product [symmetric] for_loop_fold)

lemma scatter_step_cases:
  assumes "scatter_step alphaMap width idx c r = Inr r'"
  shows "(cell_value alphaMap width c = 0 \<and> r' = r) \<or>
         (cell_value alphaMap width c \<noteq> 0 \<and> 0 \<le> idx (fst c) (snd c) \<and>
          nat (idx (fst c) (snd c)) < length r \<and>
          r' = r[nat (idx (fst c) (snd c)) := cell_value alphaMap width c])"
  using assms
  by (cases c) (auto simp: scatter_step_def cell_value_def rd_def wr_def split: if_splits sum.splits)

lemma fold_scatter_cells:
  assumes "fold_fault (scatter_step alphaMap width idx) cs r = Inr r'"
  shows "length r' = length r \<and>
     (\<forall>k<length r. r' ! k =
        (case filter (\<lambda>c. cell_value alphaMap width c \<noteq> 0 \<and> idx (fst c) (snd c) = int k) cs of
           [] \<Rightarrow> r ! k
         | hs \<Rightarrow> cell_value alphaMap width (last hs)))"
  using assms
proof (induction cs arbitrary: r)
  case Nil
  then show ?case by simp
next
  case (Cons c cs)
  let ?P = "\<lambda>k c. cell_value alphaMap width c \<noteq> 0 \<and> idx (fst c) (snd c) = int k"
  from Cons.prems obtain r1 where
    step: "scatter_step alphaMap width idx c r = Inr r1"
    and rest: "fold_fault (scatter_step alphaMap width idx) cs r1 = Inr r'"
    by (auto split: sum.splits)
  from Cons.IH [OF rest] have len: "length r' = length r1"
    and cells: "\<And>k. k < length r1 \<Longrightarrow> r' ! k =
        (case filter (?P k) cs of [] \<Rightarrow> r1 ! k | hs \<Rightarrow> cell_value alphaMap width (last hs))"
    by simp_all
  from scatter_step_cases [OF step] have len1: "length r1 = length r"
    by auto
  have "r' ! k = (case filter (?P k) (c # cs) of
           [] \<Rightarrow> r ! k | hs \<Rightarrow> cell_value alphaMap width (last hs))" if k: "k < length r" for k
  proof (cases "filter (?P k) cs")
    case (Cons h hs)
    with cells [of k] k len1 show ?thesis by simp
  next
    case Nil
    with cells [of k] k len1 have r'k: "r' ! k = r1 ! k" by simp
    show ?thesis
    proof (cases "?P k c")
      case True
      with scatter_step_cases [OF step] k have "r1 ! k = cell_value alphaMap width c"
        by auto
      with True Nil r'k show ?thesis by simp
    next
      case False
      with scatter_step_cases [OF step] k have "r1 ! k = r ! k"
        by (auto simp: nat_eq_iff)
      with False Nil r'k show ?thesis by auto
    qed
  qed
  with len len1 show ?case by simp
qed

section \<open>The reads of the resampler\<close>

text \<open>
  Claim C3 fails on the code.  For a source map of one cell (\<open>w = h = 1\<close>) and
  the target size 1 by 1 the first sample reads \<^verbatim>\<open>pixels[0]\<close> and then
  \<^verbatim>\<open>pixels[1]\<close>, which is outside the array of size \<open>w * h = 1\<close>.
\<close>

theorem resizeBilinear_out_of_bounds:
  "rd [255] 0 = Inr 255 \<and> rd [255] (0 + 1) = Inl OutOfBounds \<and>
   resizeBilinear [255] 1 1 1 1 = Inl OutOfBounds"
  by (simp add: rd_def resizeBilinear_def resize_row_def resize_sample_def c_div_def
      for_loop.simps [of 0] Let_def)

text \<open>
  The same happens for every source map of height 1: the read of
  \<^verbatim>\<open>pixels[index + w]\<close> is outside the single row, whatever the target size.
\<close>

lemma resize_sample_single_row:
  assumes "0 < w" "length pixels = nat w"
  shows "resize_sample pixels w 0 0 65536 0 = Inl OutOfBounds"
  using assms by (simp add: resize_sample_def rd_def Let_def)

lemma resizeBilinear_single_row:
  assumes "0 < w" "0 < w2" "0 < h2" "length pixels = nat (w * 1)"
  shows "resizeBilinear pixels w 1 w2 h2 = Inl OutOfBounds"
proof -
  have "resize_sample pixels w 0 0 65536 0 = Inl OutOfBounds"
    using assms by (simp add: resize_sample_single_row)
  then have "resize_row pixels w w2 (w2 * h2) x_ratio 0 0 65536 [] = Inl OutOfBounds" for x_ratio
    using assms(2) by (simp add: resize_row_def for_loop.simps [of 0])
  moreover have "\<not> w2 * h2 < 0"
    using assms(2,3) by (simp add: not_less)
  ultimately show ?thesis
    using assms(2,3) by (simp add: resizeBilinear_def for_loop.simps [of 0] Let_def)
qed

text \<open>
  A source map of width 1 is read out of bounds when a sample falls into row
  \<open>h - 2\<close>: always for \<open>h = 2\<close>, and for \<open>h = 3\<close> with two target rows but not
  with one.
\<close>

lemma resizeBilinear_single_column:
  "resizeBilinear [255, 255] 1 2 1 1 = Inl OutOfBounds"
  "resizeBilinear [255, 255, 255] 1 3 1 2 = Inl OutOfBounds"
  "resizeBilinear [255, 255, 255] 1 3 1 1 = Inr [255]"
  by code_simp+

text \<open>
  For a source map of at least 2 by 2 cells the four reads of every sample are inside
  the array, and the resampler returns: the row \<^verbatim>\<open>yr\<close> is at most \<open>h - 2\<close> and
  the column \<^verbatim>\<open>xr\<close> at most \<open>w - 2\<close>, by the \<open>dim - 1\<close> in the step ratio.
\<close>

lemma for_loop_total:
  assumes "I i s"
    and "\<And>k t. i \<le> k \<Longrightarrow> k < n \<Longrightarrow> I k t \<Longrightarrow> \<exists>t'. body k t = Inr t' \<and> I (k + 1) t'"
  shows "\<exists>s'. for_loop i n body s = Inr s' \<and> I (max i n) s'"
  using assms
proof (induction i n body s rule: for_loop.induct)
  case (1 i n body s)
  show ?case
  proof (cases "i < n")
    case False
    with "1.prems"(1) show ?thesis
      by (simp add: for_loop.simps [of i] max_def)
  next
    case True
    from "1.prems"(2) [OF _ True "1.prems"(1)]
    obtain t where t: "body i s = Inr t" and It: "I (i + 1) t" by auto
    have "\<exists>s'. for_loop (i + 1) n body t = Inr s' \<and> I (max (i + 1) n) s'"
      using "1.IH" [OF True t It] "1.prems"(2) by simp
    with True t show ?thesis
      by (simp add: for_loop.simps [of i] max_def)
  qed
qed

lemma c_div_pos: "0 \<le> a \<Longrightarrow> 0 < b \<Longrightarrow> c_div a b = a div b"
  by (cases "a = 0") (simp_all add: c_div_def)

lemma div_less_bound:
  fixes a b c :: int
  assumes "0 < c" "a < b * c"
  shows "a div c < b"
proof -
  have "c * (a div c) + a mod c = a" by simp
  moreover have "0 \<le> a mod c" using assms(1) by simp
  ultimately have "c * (a div c) \<le> a" by linarith
  with assms(2) have "(a div c) * c < b * c" by (simp add: mult.commute)
  with assms(1) show ?thesis by (simp add: mult_less_cancel_right)
qed

lemma step_bound:
  fixes d n j :: int
  assumes "2 \<le> d" "0 < n" "0 \<le> j" "j < n"
  shows "0 \<le> drop_bit 16 (j * c_div (push_bit 16 (d - 1)) n)"
    and "drop_bit 16 (j * c_div (push_bit 16 (d - 1)) n) \<le> d - 2"
proof -
  let ?R = "((d - 1) * 65536) div n"
  have R: "c_div (push_bit 16 (d - 1)) n = ?R"
    using assms by (simp add: c_div_pos push_bit_eq_mult)
  have R0: "0 \<le> ?R" using assms by (simp add: pos_imp_zdiv_nonneg_iff)
  have "(d - 1) * 65536 = ?R * n + ((d - 1) * 65536) mod n"
    by simp
  moreover have "0 \<le> ((d - 1) * 65536) mod n"
    using assms(2) by simp
  ultimately have Rn: "?R * n \<le> (d - 1) * 65536"
    by linarith
  have "j * ?R < (d - 1) * 65536"
  proof (cases "?R = 0")
    case True
    with assms(1) show ?thesis by simp
  next
    case False
    with R0 have "1 \<le> ?R" by simp
    have "j * ?R \<le> (n - 1) * ?R"
      using assms(4) R0 by (simp add: mult_right_mono)
    also have "\<dots> = ?R * n - ?R" by (simp add: algebra_simps)
    also have "\<dots> < (d - 1) * 65536" using Rn \<open>1 \<le> ?R\<close> by simp
    finally show ?thesis .
  qed
  then have "(j * ?R) div 65536 < d - 1"
    by (intro div_less_bound) simp_all
  then show "drop_bit 16 (j * c_div (push_bit 16 (d - 1)) n) \<le> d - 2"
    by (simp add: R drop_bit_eq_div)
  have "0 \<le> j * ?R" using assms(3) R0 by simp
  then have "0 \<le> (j * ?R) div 65536"
    by (simp add: pos_imp_zdiv_nonneg_iff)
  then show "0 \<le> drop_bit 16 (j * c_div (push_bit 16 (d - 1)) n)"
    by (simp add: R drop_bit_eq_div)
qed

lemma resize_sample_total:
  assumes "0 \<le> y_index + drop_bit 16 x" "0 \<le> w"
    and "y_index + drop_bit 16 x + w + 1 < int (length pixels)"
  shows "\<exists>alpha. resize_sample pixels w y_index y_diff one_min_y_diff x = Inr alpha"
  using assms by (simp add: resize_sample_def rd_def Let_def)

lemma resize_row_total:
  assumes w: "2 \<le> w" and w2: "0 < w2"
    and y_index: "0 \<le> y_index" "y_index + 2 * w \<le> int (length pixels)"
    and x_ratio: "x_ratio = c_div (push_bit 16 (w - 1)) w2"
    and room: "int (length temp0) + w2 \<le> capacity"
  shows "\<exists>temp. resize_row pixels w w2 capacity x_ratio y_index y_diff one_min_y_diff temp0
            = Inr temp \<and> int (length temp) = int (length temp0) + w2"
proof -
  let ?body = "\<lambda>(j::int) (x, temp).
           case resize_sample pixels w y_index y_diff one_min_y_diff x of
             Inl e \<Rightarrow> Inl e
           | Inr alpha \<Rightarrow>
              (case store_next capacity temp alpha of
                 Inl e \<Rightarrow> Inl e
               | Inr temp' \<Rightarrow> Inr (x + x_ratio, temp'))"
  let ?I = "\<lambda>j (s :: int \<times> int list).
      fst s = j * x_ratio \<and> int (length (snd s)) = int (length temp0) + j"
  have "\<exists>s'. for_loop 0 w2 ?body (0, temp0) = Inr s' \<and> ?I (max 0 w2) s'"
  proof (rule for_loop_total [where I = ?I])
    show "?I 0 (0, temp0)" by simp
  next
    fix k t
    assume k: "0 \<le> k" "k < w2" and inv: "?I k t"
    obtain x1 temp1 where t: "t = (x1, temp1)" by (cases t)
    from inv have x1: "x1 = k * x_ratio" and len: "int (length temp1) = int (length temp0) + k"
      by (simp_all add: t)
    have xr: "0 \<le> drop_bit 16 x1" "drop_bit 16 x1 \<le> w - 2"
      using step_bound [OF w w2 k] by (simp_all add: x1 x_ratio)
    have "\<exists>alpha. resize_sample pixels w y_index y_diff one_min_y_diff x1 = Inr alpha"
      using xr y_index w by (intro resize_sample_total) simp_all
    then obtain alpha where
      alpha: "resize_sample pixels w y_index y_diff one_min_y_diff x1 = Inr alpha" ..
    have store: "store_next capacity temp1 alpha = Inr (temp1 @ [alpha])"
      using len k room by (simp add: store_next_def)
    have "?body k t = Inr (x1 + x_ratio, temp1 @ [alpha])"
      by (simp add: t alpha store)
    moreover have "?I (k + 1) (x1 + x_ratio, temp1 @ [alpha])"
      using len by (simp add: x1 algebra_simps)
    ultimately show "\<exists>t'. ?body k t = Inr t' \<and> ?I (k + 1) t'"
      by blast
  qed
  then obtain x temp where "for_loop 0 w2 ?body (0, temp0) = Inr (x, temp)"
    and "int (length temp) = int (length temp0) + max 0 w2"
    by auto
  with w2 show ?thesis
    by (simp add: resize_row_def)
qed

lemma resizeBilinear_in_bounds:
  assumes w: "2 \<le> w" and h: "2 \<le> h" and w2: "0 < w2" and h2: "0 < h2"
    and len: "int (length pixels) = w * h"
  shows "\<exists>out. resizeBilinear pixels w h w2 h2 = Inr out"
proof -
  let ?xr = "c_div (push_bit 16 (w - 1)) w2"
  let ?yr = "c_div (push_bit 16 (h - 1)) h2"
  let ?body = "\<lambda>(i::int) (y, temp).
                 (let yr = drop_bit 16 y;
                      y_diff = y - push_bit 16 yr;
                      one_min_y_diff = 65536 - y_diff;
                      y_index = yr * w
                  in case resize_row pixels w w2 (w2 * h2) ?xr y_index y_diff
                            one_min_y_diff temp of
                       Inl e \<Rightarrow> Inl e
                     | Inr temp' \<Rightarrow> Inr (y + ?yr, temp'))"
  let ?I = "\<lambda>i (s :: int \<times> int list).
      fst s = i * ?yr \<and> int (length (snd s)) = i * w2"
  have "\<exists>s'. for_loop 0 h2 ?body (0, []) = Inr s' \<and> ?I (max 0 h2) s'"
  proof (rule for_loop_total [where I = ?I])
    show "?I 0 (0, [])" by simp
  next
    fix k t
    assume k: "0 \<le> k" "k < h2" and inv: "?I k t"
    obtain y1 temp1 where t: "t = (y1, temp1)" by (cases t)
    from inv have y1: "y1 = k * ?yr" and len1: "int (length temp1) = k * w2"
      by (simp_all add: t)
    let ?row = "drop_bit 16 y1"
    have yr: "0 \<le> ?row" "?row \<le> h - 2"
      using step_bound [OF h h2 k] by (simp_all add: y1)
    have idx0: "0 \<le> ?row * w" using yr(1) w by simp
    have "?row * w \<le> (h - 2) * w"
      using yr(2) w by (simp add: mult_right_mono)
    then have idx1: "?row * w + 2 * w \<le> int (length pixels)"
      by (simp add: len algebra_simps)
    have "(k + 1) * w2 \<le> h2 * w2"
      using k(2) w2 by (simp add: mult_right_mono)
    then have room: "int (length temp1) + w2 \<le> w2 * h2"
      by (simp add: len1 algebra_simps)
    from resize_row_total [OF w w2 idx0 idx1 refl room]
    obtain temp2 where
      row: "resize_row pixels w w2 (w2 * h2) ?xr (?row * w) (y1 - push_bit 16 ?row)
              (65536 - (y1 - push_bit 16 ?row)) temp1 = Inr temp2"
      and len2: "int (length temp2) = int (length temp1) + w2"
      by blast
    have "?body k t = Inr (y1 + ?yr, temp2)"
      by (simp add: t Let_def row)
    moreover have "?I (k + 1) (y1 + ?yr, temp2)"
      by (simp add: y1 len1 len2 algebra_simps)
    ultimately show "\<exists>t'. ?body k t = Inr t' \<and> ?I (k + 1) t'"
      by blast
  qed
  then obtain y out where loop: "for_loop 0 h2 ?body (0, []) = Inr (y, out)"
    by auto
  have "\<not> w2 * h2 < 0"
    using w2 h2 by (simp add: not_less)
  with w2 h2 loop show ?thesis
    by (simp add: resizeBilinear_def Let_def)
qed

section \<open>getAlpha on an unsupported pixel format\<close>

text \<open>
  Claim C5 fails on the code.  For a \<^verbatim>\<open>BytesPerPixel\<close> outside \<open>{1,2,3,4}\<close>
  \<^const>\<open>getAlpha\<close> does not stop: it returns the alpha of the indeterminate value
  of \<^verbatim>\<open>pixelColor\<close>, which does not depend on the pixel data at all.
\<close>

theorem getAlpha_unsupported_format:
  "surf_BytesPerPixel surface \<notin> {1, 2, 3, 4} \<Longrightarrow>
   getAlpha big_endian SDL_GetRGBA_alpha indeterminate surface x y =
     Inr (uint (SDL_GetRGBA_alpha indeterminate))"
  by (simp add: getAlpha_def Let_def)

theorem getAlpha_unsupported_format_witness:
  "(5::int) \<notin> {1, 2, 3, 4} \<and>
   getAlpha False (\<lambda>c. ucast (drop_bit 24 c)) 0
     \<lparr>surf_BytesPerPixel = 5, surf_pitch = 5, surf_pixels = [255, 255, 255, 255, 255]\<rparr> 0 0
     = Inr 0"
  using getAlpha_unsupported_format [of
      "\<lparr>surf_BytesPerPixel = 5, surf_pitch = 5, surf_pixels = [255, 255, 255, 255, 255]\<rparr>"
      False "\<lambda>c. ucast (drop_bit 24 c)" 0 0 0]
  by simp

text \<open>A supported format for comparison: four bytes per pixel, alpha in the top byte.\<close>

lemma getAlpha_4_bytes:
  "getAlpha False (\<lambda>c. ucast (drop_bit 24 c)) 0
     \<lparr>surf_BytesPerPixel = 4, surf_pitch = 4, surf_pixels = [255, 255, 255, 255]\<rparr> 0 0
     = Inr 255"
  by (simp add: getAlpha_def load32_def rd_byte_def Let_def)

section \<open>The scan when box and map agree\<close>

lemma for_any_iff:
  assumes "\<And>k. i \<le> k \<Longrightarrow> k < n \<Longrightarrow> test k = Inr (P k)"
  shows "for_any i n test = Inr (\<exists>k. i \<le> k \<and> k < n \<and> P k)"
  using assms
proof (induction i n test rule: for_any.induct)
  case (1 i n test)
  show ?case
  proof (cases "i < n")
    case False
    then show ?thesis by (simp add: for_any.simps [of i])
  next
    case True
    with "1.prems" have head: "test i = Inr (P i)" by simp
    show ?thesis
    proof (cases "P i")
      case True
      with \<open>i < n\<close> head show ?thesis
        by (auto simp: for_any.simps [of i])
    next
      case False
      have "for_any (i + 1) n test = Inr (\<exists>k. i + 1 \<le> k \<and> k < n \<and> P k)"
        using "1.IH" [OF True head] False "1.prems" by simp
      moreover have "(\<exists>k. i + 1 \<le> k \<and> k < n \<and> P k) = (\<exists>k. i \<le> k \<and> k < n \<and> P k)"
      proof
        assume "\<exists>k. i + 1 \<le> k \<and> k < n \<and> P k"
        then obtain k where k: "i + 1 \<le> k" "k < n" "P k" by blast
        then have "i \<le> k" by simp
        with k show "\<exists>k. i \<le> k \<and> k < n \<and> P k" by blast
      next
        assume "\<exists>k. i \<le> k \<and> k < n \<and> P k"
        then obtain k where k: "i \<le> k" "k < n" "P k" by blast
        with False have "k \<noteq> i" by blast
        with k have "i + 1 \<le> k" by simp
        with k show "\<exists>k. i + 1 \<le> k \<and> k < n \<and> P k" by blast
      qed
      ultimately show ?thesis
        using True head False by (simp add: for_any.simps [of i])
    qed
  qed
qed

lemma list_ex_upto: "list_ex P [a..b] = (\<exists>k. a \<le> k \<and> k \<le> b \<and> P k)"
  by (auto simp: list_ex_iff)

lemma grid_index:
  fixes r c W H :: int
  assumes "0 \<le> r" "r < H" "0 \<le> c" "c < W"
  shows "0 \<le> r * W + c" and "r * W + c < W * H"
proof -
  have W: "0 < W" using assms by simp
  show "0 \<le> r * W + c" using assms W by simp
  have "r * W \<le> (H - 1) * W"
    using assms(2) W by (simp add: mult_right_mono)
  then show "r * W + c < W * H"
    using assms(4) by (simp add: algebra_simps)
qed

lemma getRotatedAlphaMap_length:
  assumes "getRotatedAlphaMap alphaMap width height angle = Inr result"
  shows "int (length result) =
    rect_w (rotator_box width height angle) * rect_h (rotator_box width height angle)"
proof -
  let ?n = "rect_w (rotator_box width height angle) * rect_h (rotator_box width height angle)"
  from assms have n: "0 \<le> ?n" and run: "fold_fault (scatter_step alphaMap width (rotator_index width height angle))
      (source_cells width height) (replicate (nat ?n) 0) = Inr result"
    by (simp_all add: getRotatedAlphaMap_unfold new_int_def scatter_fold split: if_splits)
  from fold_scatter_cells [OF run] n show ?thesis by simp
qed

lemma intersection_inside:
  assumes "rect_w (getIntersectionRect box1 box2) \<noteq> 0"
  shows "rect_x box1 \<le> rect_x (getIntersectionRect box1 box2)"
    and "rect_x (getIntersectionRect box1 box2) + rect_w (getIntersectionRect box1 box2)
           \<le> rect_x box1 + rect_w box1"
    and "rect_y box1 \<le> rect_y (getIntersectionRect box1 box2)"
    and "rect_y (getIntersectionRect box1 box2) + rect_h (getIntersectionRect box1 box2)
           \<le> rect_y box1 + rect_h box1"
    and "rect_x box2 \<le> rect_x (getIntersectionRect box1 box2)"
    and "rect_x (getIntersectionRect box1 box2) + rect_w (getIntersectionRect box1 box2)
           \<le> rect_x box2 + rect_w box2"
    and "rect_y box2 \<le> rect_y (getIntersectionRect box1 box2)"
    and "rect_y (getIntersectionRect box1 box2) + rect_h (getIntersectionRect box1 box2)
           \<le> rect_y box2 + rect_h box2"
  using assms by (simp_all add: getIntersectionRect_def Let_def split: if_splits)

lemma scan_aligned:
  assumes len1: "int (length map_1) = rect_w box1 * rect_h box1"
    and len2: "int (length map_2) = rect_w box2 * rect_h box2"
    and in1: "rect_x box1 \<le> rect_x isect" "rect_x isect + rect_w isect \<le> rect_x box1 + rect_w box1"
             "rect_y box1 \<le> rect_y isect" "rect_y isect + rect_h isect \<le> rect_y box1 + rect_h box1"
    and in2: "rect_x box2 \<le> rect_x isect" "rect_x isect + rect_w isect \<le> rect_x box2 + rect_w box2"
             "rect_y box2 \<le> rect_y isect" "rect_y isect + rect_h isect \<le> rect_y box2 + rect_h box2"
    and w1: "rect_w rb1 = rect_w box1" and h1: "rect_h rb1 = rect_h box1"
    and w2: "rect_w rb2 = rect_w box2" and h2: "rect_h rb2 = rect_h box2"
  shows "scan map_1 map_2 box1 box2 isect =
     Inr (\<exists>i. rect_y isect \<le> i \<and> i < rect_y isect + rect_h isect \<and>
          (\<exists>j. rect_x isect \<le> j \<and> j < rect_x isect + rect_w isect \<and>
             opaque_at map_1 rb1 (j - rect_x box1) (i - rect_y box1) \<and>
             opaque_at map_2 rb2 (j - rect_x box2) (i - rect_y box2)))"
  unfolding scan_def
proof (rule for_any_iff)
  fix i
  assume i: "rect_y isect \<le> i" "i < rect_y isect + rect_h isect"
  show "for_any (rect_x isect) (rect_x isect + rect_w isect)
          (\<lambda>j. case rd map_1 ((i - rect_y box1) * rect_w box1 + j - rect_x box1) of
                 Inl e \<Rightarrow> Inl e
               | Inr a \<Rightarrow>
                   if a \<noteq> 0
                   then (case rd map_2 ((i - rect_y box2) * rect_w box2 + j - rect_x box2) of
                           Inl e \<Rightarrow> Inl e
                         | Inr b \<Rightarrow> Inr (b \<noteq> 0))
                   else Inr False) =
        Inr (\<exists>j. rect_x isect \<le> j \<and> j < rect_x isect + rect_w isect \<and>
             opaque_at map_1 rb1 (j - rect_x box1) (i - rect_y box1) \<and>
             opaque_at map_2 rb2 (j - rect_x box2) (i - rect_y box2))"
  proof (rule for_any_iff)
    fix j
    assume j: "rect_x isect \<le> j" "j < rect_x isect + rect_w isect"
    have r1: "0 \<le> i - rect_y box1" "i - rect_y box1 < rect_h box1"
      and c1: "0 \<le> j - rect_x box1" "j - rect_x box1 < rect_w box1"
      and r2: "0 \<le> i - rect_y box2" "i - rect_y box2 < rect_h box2"
      and c2: "0 \<le> j - rect_x box2" "j - rect_x box2 < rect_w box2"
      using i j in1 in2 by simp_all
    have k1: "0 \<le> (i - rect_y box1) * rect_w box1 + (j - rect_x box1)"
      "(i - rect_y box1) * rect_w box1 + (j - rect_x box1) < int (length map_1)"
      using grid_index [OF r1 c1] by (simp_all add: len1)
    have k2: "0 \<le> (i - rect_y box2) * rect_w box2 + (j - rect_x box2)"
      "(i - rect_y box2) * rect_w box2 + (j - rect_x box2) < int (length map_2)"
      using grid_index [OF r2 c2] by (simp_all add: len2)
    have e1: "(i - rect_y box1) * rect_w box1 + j - rect_x box1 =
        (i - rect_y box1) * rect_w box1 + (j - rect_x box1)" by simp
    have e2: "(i - rect_y box2) * rect_w box2 + j - rect_x box2 =
        (i - rect_y box2) * rect_w box2 + (j - rect_x box2)" by simp
    show "(case rd map_1 ((i - rect_y box1) * rect_w box1 + j - rect_x box1) of
                 Inl e \<Rightarrow> Inl e
               | Inr a \<Rightarrow>
                   if a \<noteq> 0
                   then (case rd map_2 ((i - rect_y box2) * rect_w box2 + j - rect_x box2) of
                           Inl e \<Rightarrow> Inl e
                         | Inr b \<Rightarrow> Inr (b \<noteq> 0))
                   else Inr False) =
          Inr (opaque_at map_1 rb1 (j - rect_x box1) (i - rect_y box1) \<and>
               opaque_at map_2 rb2 (j - rect_x box2) (i - rect_y box2))"
      unfolding e1 e2 opaque_at_def w1 h1 w2 h2
      using k1 k2 r1 c1 r2 c2 by (simp add: rd_def)
  qed
qed


text \<open>
  When both sprites' bounding boxes have the width and the height of their rotated
  maps, and the resampler and the rotator return, \<^const>\<open>hasCollision\<close> is what
  claim C1 says: every read of the scan is inside its map, and the scan finds a
  coordinate of the intersection where both maps are non-zero if and only if there is
  one.
\<close>

lemma hasCollision_aligned:
  assumes r1: "resizeBilinear (tex_alphaMap texture1) (tex_width texture1) (tex_height texture1)
                 (rect_w rect1) (rect_h rect1) = Inr resized_map1"
    and r2: "resizeBilinear (tex_alphaMap texture2) (tex_width texture2) (tex_height texture2)
                 (rect_w rect2) (rect_h rect2) = Inr resized_map2"
    and m1: "getRotatedAlphaMap resized_map1 (rect_w rect1) (rect_h rect1) angle1 = Inr map_1"
    and m2: "getRotatedAlphaMap resized_map2 (rect_w rect2) (rect_h rect2) angle2 = Inr map_2"
    and w1: "rect_w (rotator_box (rect_w rect1) (rect_h rect1) angle1) =
             rect_w (getRotatedBoundingBox rect1 angle1)"
    and h1: "rect_h (rotator_box (rect_w rect1) (rect_h rect1) angle1) =
             rect_h (getRotatedBoundingBox rect1 angle1)"
    and w2: "rect_w (rotator_box (rect_w rect2) (rect_h rect2) angle2) =
             rect_w (getRotatedBoundingBox rect2 angle2)"
    and h2: "rect_h (rotator_box (rect_w rect2) (rect_h rect2) angle2) =
             rect_h (getRotatedBoundingBox rect2 angle2)"
  shows "fst (hasCollision texture1 rect1 angle1 texture2 rect2 angle2) =
           Inr (collision_claim texture1 rect1 angle1 texture2 rect2 angle2)"
proof -
  let ?box1 = "getRotatedBoundingBox rect1 angle1"
  let ?box2 = "getRotatedBoundingBox rect2 angle2"
  let ?I = "getIntersectionRect ?box1 ?box2"
  let ?rb1 = "rotator_box (rect_w rect1) (rect_h rect1) angle1"
  let ?rb2 = "rotator_box (rect_w rect2) (rect_h rect2) angle2"
  let ?claim = "\<exists>i. rect_y ?I \<le> i \<and> i < rect_y ?I + rect_h ?I \<and>
          (\<exists>j. rect_x ?I \<le> j \<and> j < rect_x ?I + rect_w ?I \<and>
             opaque_at map_1 ?rb1 (j - rect_x ?box1) (i - rect_y ?box1) \<and>
             opaque_at map_2 ?rb2 (j - rect_x ?box2) (i - rect_y ?box2))"
  have claim: "collision_claim texture1 rect1 angle1 texture2 rect2 angle2 = ?claim"
    by (simp add: collision_claim_def Let_def r1 r2 m1 m2 list_ex_upto)
  show ?thesis
  proof (cases "rect_w ?I = 0")
    case True
    then have "\<not> ?claim" by auto
    with True claim show ?thesis
      by (simp add: hasCollision_def Let_def)
  next
    case False
    have len1: "int (length map_1) = rect_w ?box1 * rect_h ?box1"
      using getRotatedAlphaMap_length [OF m1] by (simp add: w1 h1)
    have len2: "int (length map_2) = rect_w ?box2 * rect_h ?box2"
      using getRotatedAlphaMap_length [OF m2] by (simp add: w2 h2)
    have "scan map_1 map_2 ?box1 ?box2 ?I = Inr ?claim"
      by (rule scan_aligned [OF len1 len2 intersection_inside [OF False] w1 h1 w2 h2])
    with False claim show ?thesis
      by (simp add: hasCollision_def Let_def r1 r2 m1 m2)
  qed
qed


text \<open>At angle 0 the bounding boxes and the rotated maps do have the same size.\<close>

lemma hasCollision_angle0:
  assumes "resizeBilinear (tex_alphaMap texture1) (tex_width texture1) (tex_height texture1)
                 (rect_w rect1) (rect_h rect1) = Inr resized_map1"
    and "resizeBilinear (tex_alphaMap texture2) (tex_width texture2) (tex_height texture2)
                 (rect_w rect2) (rect_h rect2) = Inr resized_map2"
    and "getRotatedAlphaMap resized_map1 (rect_w rect1) (rect_h rect1) 0 = Inr map_1"
    and "getRotatedAlphaMap resized_map2 (rect_w rect2) (rect_h rect2) 0 = Inr map_2"
    and "0 \<le> rect_w rect1" "0 \<le> rect_h rect1" "0 \<le> rect_w rect2" "0 \<le> rect_h rect2"
  shows "fst (hasCollision texture1 rect1 0 texture2 rect2 0) =
           Inr (collision_claim texture1 rect1 0 texture2 rect2 0)"
  using assms by (intro hasCollision_aligned) (simp_all add: rotator_box_angle0 bbox_angle0)

text \<open>
  Two fully opaque textures of 10 by 10 cells at the same place, angle 0: the code
  and the words of the claim agree on \<open>true\<close>.
\<close>

lemma scan_same_place:
  "scan opaque_11 opaque_11 \<lparr>rect_x = 0, rect_y = 0, rect_w = 11, rect_h = 11\<rparr>
     \<lparr>rect_x = 0, rect_y = 0, rect_w = 11, rect_h = 11\<rparr>
     \<lparr>rect_x = 0, rect_y = 0, rect_w = 11, rect_h = 11\<rparr> = Inr True"
  by code_simp

lemma hasCollision_same_place:
  "fst (hasCollision \<lparr>tex_width = 10, tex_height = 10, tex_alphaMap = replicate 100 255\<rparr>
          \<lparr>rect_x = 0, rect_y = 0, rect_w = 10, rect_h = 10\<rparr> 0
          \<lparr>tex_width = 10, tex_height = 10, tex_alphaMap = replicate 100 255\<rparr>
          \<lparr>rect_x = 0, rect_y = 0, rect_w = 10, rect_h = 10\<rparr> 0) = Inr True"
  by (simp add: hasCollision_def bbox_angle0 getIntersectionRect_def resize_10 rotate_10
      scan_same_place Let_def)

lemma collision_claim_same_place:
  "collision_claim \<lparr>tex_width = 10, tex_height = 10, tex_alphaMap = replicate 100 255\<rparr>
          \<lparr>rect_x = 0, rect_y = 0, rect_w = 10, rect_h = 10\<rparr> 0
          \<lparr>tex_width = 10, tex_height = 10, tex_alphaMap = replicate 100 255\<rparr>
          \<lparr>rect_x = 0, rect_y = 0, rect_w = 10, rect_h = 10\<rparr> 0"
proof -
  let ?T = "\<lparr>tex_width = 10, tex_height = 10, tex_alphaMap = replicate 100 255\<rparr>"
  let ?R = "\<lparr>rect_x = 0, rect_y = 0, rect_w = 10, rect_h = 10\<rparr>"
  have r: "resizeBilinear (tex_alphaMap ?T) (tex_width ?T) (tex_height ?T) (rect_w ?R) (rect_h ?R)
      = Inr (replicate 100 255)"
    by (simp add: resize_10)
  have m: "getRotatedAlphaMap (replicate 100 255) (rect_w ?R) (rect_h ?R) 0 = Inr opaque_11"
    by (simp add: rotate_10)
  have "fst (hasCollision ?T ?R 0 ?T ?R 0) = Inr (collision_claim ?T ?R 0 ?T ?R 0)"
    by (rule hasCollision_angle0 [OF r r m m]) simp_all
  with hasCollision_same_place show ?thesis by simp
qed

text \<open>The rotator returns when every read and every scatter write is in bounds.\<close>

lemma scatter_total:
  assumes reads: "\<And>i j. 0 \<le> i \<Longrightarrow> i < height \<Longrightarrow> 0 \<le> j \<Longrightarrow> j < width \<Longrightarrow>
            0 \<le> i * width + j \<and> i * width + j < int (length alphaMap)"
    and writes: "\<And>i j. 0 \<le> i \<Longrightarrow> i < height \<Longrightarrow> 0 \<le> j \<Longrightarrow> j < width \<Longrightarrow>
            0 \<le> idx i j \<and> idx i j < int (length result0)"
  shows "\<exists>result. scatter alphaMap width height idx result0 = Inr result"
proof -
  let ?I = "\<lambda>(k::int) (r :: int list). length r = length result0"
  let ?inner = "\<lambda>i (j::int) result.
               case rd alphaMap (i * width + j) of
                 Inl e \<Rightarrow> Inl e
               | Inr a \<Rightarrow> if a \<noteq> 0 then wr result (idx i j) a else Inr result"
  have row: "\<exists>r'. for_loop 0 width (?inner i) r = Inr r' \<and> ?I (i + 1) r'"
    if i: "0 \<le> i" "i < height" and r: "?I i r" for i r
  proof -
    have "\<exists>s'. for_loop 0 width (?inner i) r = Inr s' \<and> ?I (max 0 width) s'"
    proof (rule for_loop_total [where I = ?I])
      show "?I 0 r" using r by simp
    next
      fix j t
      assume j: "0 \<le> j" "j < width" and t: "?I j t"
      from reads [OF i j] have "rd alphaMap (i * width + j) = Inr (alphaMap ! nat (i * width + j))"
        by (simp add: rd_def)
      moreover from writes [OF i j] t
      have "wr t (idx i j) a = Inr (t[nat (idx i j) := a])" for a
        by (simp add: wr_def)
      ultimately show "\<exists>t'. ?inner i j t = Inr t' \<and> ?I (j + 1) t'"
        using t by simp
    qed
    then show ?thesis by simp
  qed
  have "\<exists>s'. for_loop 0 height (\<lambda>i. for_loop 0 width (?inner i)) result0 = Inr s' \<and>
          ?I (max 0 height) s'"
    by (rule for_loop_total [where I = ?I]) (simp_all add: row)
  then show ?thesis
    by (auto simp: scatter_def)
qed

lemma getRotatedAlphaMap_angle0_total:
  assumes "0 \<le> width" "0 \<le> height" "int (length alphaMap) = width * height"
  shows "\<exists>result. getRotatedAlphaMap alphaMap width height 0 = Inr result"
proof -
  have "\<exists>result. scatter alphaMap width height (\<lambda>i j. i * (width + 1) + j)
       (replicate (nat ((width + 1) * (height + 1))) 0) = Inr result"
  proof (rule scatter_total)
    fix i j :: int
    assume ij: "0 \<le> i" "i < height" "0 \<le> j" "j < width"
    show "0 \<le> i * width + j \<and> i * width + j < int (length alphaMap)"
      using grid_index [OF ij] assms(3) by simp
    have "0 \<le> i * (width + 1) + j \<and> i * (width + 1) + j < (width + 1) * (height + 1)"
      using grid_index [of i "height + 1" j "width + 1"] ij by simp
    moreover have "0 \<le> (width + 1) * (height + 1)"
      using assms by simp
    ultimately show "0 \<le> i * (width + 1) + j \<and>
        i * (width + 1) + j < int (length (replicate (nat ((width + 1) * (height + 1))) (0::int)))"
      by simp
  qed
  then show ?thesis
    using assms by (simp add: getRotatedAlphaMap_angle0)
qed

lemma resizeBilinear_length:
  assumes "0 < w2" "0 < h2" "resizeBilinear pixels w h w2 h2 = Inr out"
  shows "int (length out) = w2 * h2"
  using resizeBilinear_inv [OF assms(3)] assms(1,2) by (simp add: max_def mult.commute)

text \<open>
  At angle 0, for textures of at least 2 by 2 cells whose opacity maps have
  \<open>width * height\<close> cells, and rectangles of positive size, nothing is read or
  written out of bounds, and \<^const>\<open>hasCollision\<close> returns what claim C1 says.
\<close>

lemma hasCollision_angle0_total:
  assumes t1: "2 \<le> tex_width texture1" "2 \<le> tex_height texture1"
      "int (length (tex_alphaMap texture1)) = tex_width texture1 * tex_height texture1"
    and t2: "2 \<le> tex_width texture2" "2 \<le> tex_height texture2"
      "int (length (tex_alphaMap texture2)) = tex_width texture2 * tex_height texture2"
    and rect1: "0 < rect_w rect1" "0 < rect_h rect1"
    and rect2: "0 < rect_w rect2" "0 < rect_h rect2"
  shows "fst (hasCollision texture1 rect1 0 texture2 rect2 0) =
           Inr (collision_claim texture1 rect1 0 texture2 rect2 0)"
proof -
  from resizeBilinear_in_bounds [OF t1(1,2) rect1 t1(3)]
  obtain resized_map1 where r1: "resizeBilinear (tex_alphaMap texture1) (tex_width texture1)
      (tex_height texture1) (rect_w rect1) (rect_h rect1) = Inr resized_map1" ..
  from resizeBilinear_in_bounds [OF t2(1,2) rect2 t2(3)]
  obtain resized_map2 where r2: "resizeBilinear (tex_alphaMap texture2) (tex_width texture2)
      (tex_height texture2) (rect_w rect2) (rect_h rect2) = Inr resized_map2" ..
  have "\<exists>m. getRotatedAlphaMap resized_map1 (rect_w rect1) (rect_h rect1) 0 = Inr m"
    using rect1 resizeBilinear_length [OF rect1 r1]
    by (intro getRotatedAlphaMap_angle0_total) simp_all
  then obtain map_1 where
    m1: "getRotatedAlphaMap resized_map1 (rect_w rect1) (rect_h rect1) 0 = Inr map_1" ..
  have "\<exists>m. getRotatedAlphaMap resized_map2 (rect_w rect2) (rect_h rect2) 0 = Inr m"
    using rect2 resizeBilinear_length [OF rect2 r2]
    by (intro getRotatedAlphaMap_angle0_total) simp_all
  then obtain map_2 where
    m2: "getRotatedAlphaMap resized_map2 (rect_w rect2) (rect_h rect2) 0 = Inr map_2" ..
  show ?thesis
    using rect1 rect2 by (intro hasCollision_angle0 [OF r1 r2 m1 m2]) simp_all
qed

section \<open>The rotated map and its last writes\<close>

subsection \<open>The two forms of the rotator\<close>

text \<open>With the operations of the reals the rotator of this section is the one above.\<close>

lemma getRotatedBoundingBox_exact:
  "getRotatedBoundingBox_fp exact_ops rect angle = getRotatedBoundingBox rect angle"
  unfolding getRotatedBoundingBox_fp_def getRotatedBoundingBox_def exact_ops_def
  by (simp only: fp_ops.simps)

lemma scatter_index_exact: "scatter_index_fp exact_ops = scatter_index"
  unfolding scatter_index_fp_def scatter_index_def exact_ops_def
  by (simp only: fp_ops.simps)

lemma getRotatedAlphaMap_exact:
  "getRotatedAlphaMap_fp exact_ops alphaMap width height angle =
     getRotatedAlphaMap alphaMap width height angle"
  unfolding getRotatedAlphaMap_fp_def getRotatedAlphaMap_def getRotatedBoundingBox_exact
    scatter_index_exact
  unfolding exact_ops_def
  by (simp only: fp_ops.simps)

lemma rotated_box_exact: "rotated_box exact_ops width height angle = rotator_box width height angle"
  unfolding rotated_box_def rotator_box_def getRotatedBoundingBox_exact
  unfolding exact_ops_def
  by (simp only: fp_ops.simps)

text \<open>
  The scatter write of the code goes to the destination cell of the claim, and the
  result has the size of the rotated box.
\<close>

lemma getRotatedAlphaMap_fp_unfold:
  "getRotatedAlphaMap_fp fp alphaMap width height angle =
     (case new_int (rect_w (rotated_box fp width height angle) *
                    rect_h (rotated_box fp width height angle)) of
        Inl e \<Rightarrow> Inl e
      | Inr result \<Rightarrow>
          scatter alphaMap width height (destination_cell fp width height angle) result)"
proof -
  have "scatter_index_fp fp width height (rotated_box fp width height angle)
          (c_div width 2) (c_div height 2)
          (fp_sin fp (fp_div fp (fp_mul fp (fp_mul fp angle (- 1)) (fp_pi fp)) 180))
          (fp_cos fp (fp_div fp (fp_mul fp (fp_mul fp angle (- 1)) (fp_pi fp)) 180))
        = destination_cell fp width height angle"
    by (intro ext)
      (simp add: scatter_index_fp_def destination_cell_def rounded_rotated_position_def Let_def)
  then show ?thesis
    unfolding getRotatedAlphaMap_fp_def Let_def
    by (simp only: rotated_box_def [symmetric])
qed

lemma destination_cell_exact:
  "destination_cell exact_ops width height angle = rotator_index width height angle"
proof -
  have "scatter_index_fp exact_ops width height (rotated_box exact_ops width height angle)
          (c_div width 2) (c_div height 2)
          (fp_sin exact_ops
             (fp_div exact_ops (fp_mul exact_ops (fp_mul exact_ops angle (- 1)) (fp_pi exact_ops)) 180))
          (fp_cos exact_ops
             (fp_div exact_ops (fp_mul exact_ops (fp_mul exact_ops angle (- 1)) (fp_pi exact_ops)) 180))
        = destination_cell exact_ops width height angle"
    by (intro ext)
      (simp add: scatter_index_fp_def destination_cell_def rounded_rotated_position_def Let_def)
  then show ?thesis
    unfolding scatter_index_exact rotated_box_exact rotator_index_def
    unfolding exact_ops_def
    by (simp only: fp_ops.simps)
qed

subsection \<open>A source cell whose destination is no cell of the rotated map\<close>

lemma rounded_rotated_position_1_8_135:
  "rounded_rotated_position exact_ops 1 8 135 0 0 = (3, 3)"
  by (simp add: rounded_rotated_position_def exact_ops_def Let_def c_div_def sin_135 cos_135
      c_round_2_sqrt2)

text \<open>
  Claim C6 fails on the code.  The claim gives every source cell of non-zero opacity a
  destination cell of the rotated map, which holds the cell's opacity unless a later
  source cell has the same destination.  For a map one cell wide and eight cells high
  whose first cell has opacity 7, rotated by 135 degrees, the destination cell of that
  source cell has the number 55 (its rounded rotated position is column 3, row 3
  from the centre), but the rotated map has the 49 cells \<open>0 .. 48\<close>: the opacity 7
  is in no cell of the rotated map, and the code writes it behind the end of the
  buffer.  The model reports that write; the rotator returns no map.
\<close>

theorem getRotatedAlphaMap_cell_outside:
  "cell_value [7, 0, 0, 0, 0, 0, 0, 0] 1 (0, 0) = 7 \<and>
   rounded_rotated_position exact_ops 1 8 135 0 0 = (3, 3) \<and>
   destination_cell exact_ops 1 8 135 0 0 = 55 \<and>
   rect_w (rotated_box exact_ops 1 8 135) * rect_h (rotated_box exact_ops 1 8 135) = 49 \<and>
   getRotatedAlphaMap [7, 0, 0, 0, 0, 0, 0, 0] 1 8 135 = Inl OutOfBounds"
  by (simp add: cell_value_def rounded_rotated_position_1_8_135 destination_cell_exact
      rotated_box_exact rotator_box_1_8_135 rotator_index_1_8_135 getRotatedAlphaMap_unfold
      new_int_def scatter_def for_loop.simps [of 0] rd_def wr_def)

subsection \<open>The rotated map when every destination is one of its cells\<close>

text \<open>The rotated box is at least one cell wide and one cell high, so the allocation succeeds.\<close>

lemma extent_positive:
  "1 \<le> max a (max b (max c d)) - min a (min b (min c (d::int))) + 1"
proof -
  have "min a (min b (min c d)) \<le> a" by (rule min.cobounded1)
  also have "a \<le> max a (max b (max c d))" by (rule max.cobounded1)
  finally show ?thesis by simp
qed

lemma rotated_box_size:
  "1 \<le> rect_w (rotated_box fp width height angle)"
  "1 \<le> rect_h (rotated_box fp width height angle)"
  unfolding rotated_box_def getRotatedBoundingBox_fp_def Let_def SDL_Rect.select_convs
  by (rule extent_positive)+

text \<open>
  The scan returns when every source cell is a cell of the source map and every write
  for a source cell of non-zero opacity is in bounds.
\<close>

lemma source_cells_iff:
  "(i, j) \<in> set (source_cells width height) \<longleftrightarrow> 0 \<le> i \<and> i < height \<and> 0 \<le> j \<and> j < width"
  by (auto simp: source_cells_def)

lemma source_cell_bounds:
  assumes "c \<in> set (source_cells width height)"
  shows "0 \<le> fst c" "fst c < height" "0 \<le> snd c" "snd c < width"
  using assms source_cells_iff [of "fst c" "snd c" width height] by simp_all

lemma fold_scatter_total:
  assumes reads: "\<And>c. c \<in> set cs \<Longrightarrow>
            0 \<le> fst c * width + snd c \<and> fst c * width + snd c < int (length alphaMap)"
    and writes: "\<And>c. c \<in> set cs \<Longrightarrow> cell_value alphaMap width c \<noteq> 0 \<Longrightarrow>
            0 \<le> idx (fst c) (snd c) \<and> idx (fst c) (snd c) < int (length r)"
  shows "\<exists>r'. fold_fault (scatter_step alphaMap width idx) cs r = Inr r'"
  using assms
proof (induction cs arbitrary: r)
  case Nil
  show ?case by simp
next
  case (Cons c cs)
  obtain i j where c: "c = (i, j)" by (cases c)
  from Cons.prems(1) [of c] c
  have rd: "rd alphaMap (i * width + j) = Inr (alphaMap ! nat (i * width + j))"
    by (simp add: rd_def)
  have "\<exists>r1. scatter_step alphaMap width idx c r = Inr r1 \<and> length r1 = length r"
  proof (cases "cell_value alphaMap width c = 0")
    case True
    with c rd show ?thesis by (simp add: scatter_step_def cell_value_def)
  next
    case False
    with Cons.prems(2) [of c] c
    have "0 \<le> idx i j \<and> idx i j < int (length r)" by simp
    with False c rd show ?thesis by (simp add: scatter_step_def cell_value_def wr_def)
  qed
  then obtain r1 where step: "scatter_step alphaMap width idx c r = Inr r1"
    and len: "length r1 = length r" by blast
  have "\<exists>r'. fold_fault (scatter_step alphaMap width idx) cs r1 = Inr r'"
    by (rule Cons.IH) (use Cons.prems len in auto)
  with step show ?case by simp
qed

text \<open>Started on zeros, the scan leaves in every cell what the last write put there.\<close>

lemma hits_filter:
  "filter (\<lambda>c. cell_value alphaMap width c \<noteq> 0 \<and> idx (fst c) (snd c) = k)
     (source_cells width height) = hits alphaMap width height idx k"
  unfolding hits_def cell_value_def by (rule filter_cong) auto

lemma scatter_cells:
  assumes run: "scatter alphaMap width height idx (replicate n 0) = Inr r'"
  shows "r' = map (\<lambda>k. case hits alphaMap width height idx (int k) of
                 [] \<Rightarrow> 0
               | hs \<Rightarrow> cell_value alphaMap width (last hs)) [0 ..< n]"
proof (rule nth_equalityI)
  from run have fold: "fold_fault (scatter_step alphaMap width idx) (source_cells width height)
      (replicate n 0) = Inr r'"
    by (simp only: scatter_fold)
  note cells = fold_scatter_cells [OF fold, unfolded hits_filter]
  from cells show "length r' = length (map (\<lambda>k. case hits alphaMap width height idx (int k) of
                 [] \<Rightarrow> 0
               | hs \<Rightarrow> cell_value alphaMap width (last hs)) [0 ..< n])"
    by simp
  fix k assume "k < length r'"
  with cells have k: "k < n" by simp
  with cells have "r' ! k = (case hits alphaMap width height idx (int k) of
                 [] \<Rightarrow> replicate n 0 ! k
               | hs \<Rightarrow> cell_value alphaMap width (last hs))"
    by simp
  with k show "r' ! k = map (\<lambda>k. case hits alphaMap width height idx (int k) of
                 [] \<Rightarrow> 0
               | hs \<Rightarrow> cell_value alphaMap width (last hs)) [0 ..< n] ! k"
    by (simp split: list.splits)
qed

text \<open>
  For a source map of \<open>width * height\<close> cells and an angle at which the destination
  cell of every source cell of non-zero opacity is a cell of the rotated map, the
  rotator returns the map that claim C6 describes.  This holds for every choice of the
  operations on doubles, so also for those of the machine.
\<close>

lemma getRotatedAlphaMap_fp_in_bounds:
  assumes size: "int (length alphaMap) = width * height"
    and writes: "\<And>i j. 0 \<le> i \<Longrightarrow> i < height \<Longrightarrow> 0 \<le> j \<Longrightarrow> j < width \<Longrightarrow>
        alphaMap ! nat (i * width + j) \<noteq> 0 \<Longrightarrow>
        0 \<le> destination_cell fp width height angle i j \<and>
        destination_cell fp width height angle i j <
          rect_w (rotated_box fp width height angle) * rect_h (rotated_box fp width height angle)"
  shows "getRotatedAlphaMap_fp fp alphaMap width height angle =
           Inr (last_write_map fp alphaMap width height angle)"
proof -
  let ?n = "rect_w (rotated_box fp width height angle) * rect_h (rotated_box fp width height angle)"
  let ?idx = "destination_cell fp width height angle"
  let ?r0 = "replicate (nat ?n) (0::int)"
  have n: "0 \<le> ?n"
    using rotated_box_size [of fp width height angle] by simp
  have "\<exists>r'. fold_fault (scatter_step alphaMap width ?idx) (source_cells width height) ?r0 = Inr r'"
  proof (rule fold_scatter_total)
    fix c assume "c \<in> set (source_cells width height)"
    note c = source_cell_bounds [OF this]
    from grid_index [OF c] size
    show "0 \<le> fst c * width + snd c \<and> fst c * width + snd c < int (length alphaMap)"
      by simp
    assume "cell_value alphaMap width c \<noteq> 0"
    then have "alphaMap ! nat (fst c * width + snd c) \<noteq> 0"
      by (simp add: cell_value_def case_prod_beta)
    from writes [OF c this] n
    show "0 \<le> ?idx (fst c) (snd c) \<and> ?idx (fst c) (snd c) < int (length ?r0)"
      by simp
  qed
  then obtain r' where run: "scatter alphaMap width height ?idx ?r0 = Inr r'"
    unfolding scatter_fold by blast
  from scatter_cells [OF run] have "r' = last_write_map fp alphaMap width height angle"
    by (simp only: last_write_map_def)
  with run show ?thesis
    by (simp only: getRotatedAlphaMap_fp_unfold new_int_nonneg [OF n] sum.case)
qed

subsection \<open>Two source cells with one destination\<close>

text \<open>
  A map one cell wide and four cells high with the opacities 7, 9, 3, 5, rotated by 45
  degrees.  The rotated map has 5 by 5 cells.  The source cells in the rows 0 and 1
  have the rounded rotated positions \<open>(1, - 1)\<close> both, and so the same destination
  cell, 8; it holds the 9 of the later one.  As in the runs above, every number that
  is rounded is an exact 0 or lies more than 0.08 away from the next integer (for
  \<^verbatim>\<open>ceil\<close>) or half-integer (for \<^verbatim>\<open>round\<close>).
\<close>

lemma ceiling_neg_sqrt2: "\<lceil>- sqrt 2\<rceil> = - 1"
  using sqrt2_lower sqrt2_upper by (simp add: ceiling_eq_iff)

lemma c_round_sqrt2:
  "c_round (sqrt 2) = 1" "c_round (- sqrt 2) = - 1"
  "c_round (sqrt 2 / 2) = 1" "c_round (- (sqrt 2 / 2)) = - 1" "c_round 0 = 0"
  using sqrt2_lower sqrt2_upper by (simp_all add: c_round_def floor_eq_iff ceiling_eq_iff)

lemma rotator_box_1_4_45:
  "rotator_box 1 4 45 = \<lparr>rect_x = - 1, rect_y = 1, rect_w = 5, rect_h = 5\<rparr>"
  by (simp add: rotator_box_def getRotatedBoundingBox_def Let_def c_div_def sin_45 cos_45
      c_ceil_def ceiling_sqrt2 ceiling_neg_sqrt2)

lemma rotator_index_1_4_45:
  "rotator_index 1 4 45 0 0 = 8" "rotator_index 1 4 45 1 0 = 8"
  "rotator_index 1 4 45 2 0 = 12" "rotator_index 1 4 45 3 0 = 16"
  by (simp_all add: rotator_index_def scatter_index_def Let_def c_div_def sin_45 cos_45
      rotator_box_1_4_45 c_round_sqrt2)

lemma rotate_1_4_45:
  "getRotatedAlphaMap [7, 9, 3, 5] 1 4 45 =
     Inr [0, 0, 0, 0, 0,  0, 0, 0, 9, 0,  0, 0, 3, 0, 0,  0, 5, 0, 0, 0,  0, 0, 0, 0, 0]"
  by (simp add: rotator_box_1_4_45 rotator_index_1_4_45 getRotatedAlphaMap_unfold new_int_def
      scatter_def for_loop.simps [of 0] for_loop.simps [of 1] for_loop.simps [of 2]
      for_loop.simps [of 3] for_loop.simps [of 4] rd_def wr_def numeral_eq_Suc)

lemma hits_1_4_45:
  "hits [7, 9, 3, 5] 1 4 (destination_cell exact_ops 1 4 45) 8 = [(0, 0), (1, 0)]"
  by (simp add: hits_def source_cells_def upto.simps destination_cell_exact rotator_index_1_4_45)

lemma last_write_1_4_45:
  "getRotatedAlphaMap_fp exact_ops [7, 9, 3, 5] 1 4 45 =
     Inr (last_write_map exact_ops [7, 9, 3, 5] 1 4 45) \<and>
   last_write_map exact_ops [7, 9, 3, 5] 1 4 45 =
     [0, 0, 0, 0, 0,  0, 0, 0, 9, 0,  0, 0, 3, 0, 0,  0, 5, 0, 0, 0,  0, 0, 0, 0, 0]"
proof -
  have "getRotatedAlphaMap_fp exact_ops [7, 9, 3, 5] 1 4 45 =
          Inr (last_write_map exact_ops [7, 9, 3, 5] 1 4 45)"
  proof (rule getRotatedAlphaMap_fp_in_bounds)
    show "int (length [7, 9, 3, 5 :: int]) = 1 * 4" by simp
  next
    fix i j :: int
    assume "0 \<le> i" "i < 4" "0 \<le> j" "j < 1"
    then have "j = 0" and "i = 0 \<or> i = 1 \<or> i = 2 \<or> i = 3" by auto
    then show "0 \<le> destination_cell exact_ops 1 4 45 i j \<and>
        destination_cell exact_ops 1 4 45 i j <
          rect_w (rotated_box exact_ops 1 4 45) * rect_h (rotated_box exact_ops 1 4 45)"
      by (auto simp: destination_cell_exact rotated_box_exact rotator_box_1_4_45
          rotator_index_1_4_45)
  qed
  then show ?thesis
    by (simp add: getRotatedAlphaMap_exact rotate_1_4_45)
qed

end
